theory Spec2Isabelle
  imports Main "HOL-Library.Word" "HOL-Library.Monad_Syntax"
begin

unbundle bit_operations_syntax

section \<open>HexBright FLEX firmware: three revisions of one sketch\<close>

text \<open>
  The repository holds three revisions of an Arduino sketch for the HexBright FLEX
  flashlight (an ATmega168 board):
  \<^item> \<^verbatim>\<open>hexbright_jrt/hexbright_jrt.ino\<close>: last-on memory in EEPROM, delayed physical
    power-off. Its functions keep the names of the source.
  \<^item> \<^verbatim>\<open>unnamed/part_000\<close>: the same design without EEPROM and without the delayed
    power-off. Its functions carry the suffix \<open>_000\<close>.
  \<^item> \<^verbatim>\<open>unnamed/part_001\<close>: the oldest revision, with the output lines driven from
    \<^verbatim>\<open>loop\<close> itself. Its functions carry the suffix \<open>_001\<close>.

  The target is an 8-bit AVR: \<^verbatim>\<open>byte\<close> and \<^verbatim>\<open>char\<close> are 8 bits wide, \<^verbatim>\<open>int\<close> is 16 bits
  wide and \<^verbatim>\<open>unsigned long\<close> (the type of \<^verbatim>\<open>millis()\<close>) is 32 bits wide. Arithmetic on
  each of them wraps around.
\<close>

type_synonym byte = "8 word"
type_synonym cint = "16 word"
type_synonym ulong = "32 word"

subsection \<open>The macros and constants of the sketch\<close>

abbreviation (input) OVERTEMP :: int where "OVERTEMP \<equiv> 340"

abbreviation (input) DPIN_RLED_SW :: nat where "DPIN_RLED_SW \<equiv> 2"
abbreviation (input) DPIN_GLED :: nat where "DPIN_GLED \<equiv> 5"
abbreviation (input) DPIN_PGOOD :: nat where "DPIN_PGOOD \<equiv> 7"
abbreviation (input) DPIN_PWR :: nat where "DPIN_PWR \<equiv> 8"
abbreviation (input) DPIN_DRV_MODE :: nat where "DPIN_DRV_MODE \<equiv> 9"
abbreviation (input) DPIN_DRV_EN :: nat where "DPIN_DRV_EN \<equiv> 10"
abbreviation (input) DPIN_ACC_INT :: nat where "DPIN_ACC_INT \<equiv> 3"

abbreviation (input) MODE_OFF :: byte where "MODE_OFF \<equiv> 0"
abbreviation (input) MODE_LOW :: byte where "MODE_LOW \<equiv> 1"
abbreviation (input) MODE_MED :: byte where "MODE_MED \<equiv> 2"
abbreviation (input) MODE_HIGH :: byte where "MODE_HIGH \<equiv> 3"
abbreviation (input) MODE_BLINKING :: byte where "MODE_BLINKING \<equiv> 4"
abbreviation (input) MODE_BLINKING_PREVIEW :: byte where "MODE_BLINKING_PREVIEW \<equiv> 5"

abbreviation (input) EEPROM_LAST_ON_MODE :: nat where "EEPROM_LAST_ON_MODE \<equiv> 0"

abbreviation (input) INPUT :: bool where "INPUT \<equiv> False"
abbreviation (input) OUTPUT :: bool where "OUTPUT \<equiv> True"
abbreviation (input) LOW :: bool where "LOW \<equiv> False"
abbreviation (input) HIGH :: bool where "HIGH \<equiv> True"

text \<open>
  \<^verbatim>\<open>const int defaultMode = MODE_HIGH;\<close>
  \<^verbatim>\<open>const int buttonTimeoutToOffMilliseconds = 2000;\<close>
  \<^verbatim>\<open>const int noAccelShutoffMilliseconds = 30 * 60 * 1000;\<close>
  The three factors of the last initialiser are \<^verbatim>\<open>int\<close> literals, so the product is
  computed in \<^verbatim>\<open>int\<close>, which has 16 bits on this target.
\<close>

definition defaultMode :: cint where
  "defaultMode = ucast MODE_HIGH"

definition buttonTimeoutToOffMilliseconds :: cint where
  "buttonTimeoutToOffMilliseconds = 2000"

definition noAccelShutoffMilliseconds :: cint where
  "noAccelShutoffMilliseconds = 30 * 60 * 1000"

subsection \<open>Hardware and state\<close>

text \<open>
  What the sketch does to the hardware is recorded twice: \<open>pins\<close> holds the last level
  written to each pin, and \<open>trace\<close> lists the writes, the pin direction changes, the
  blocking delays and the EEPROM writes in the order they happen. Serial output and the
  bus traffic to the accelerometer are diagnostic and are left out.
\<close>

datatype level = Digital bool | Pwm byte

datatype hw_event =
    PinMode nat bool
  | DigitalWrite nat bool
  | AnalogWrite nat byte
  | Delay ulong
  | EepromWrite nat byte

text \<open>
  The global variables of the three revisions (\<open>poweringOffTime\<close> exists in
  \<^verbatim>\<open>hexbright_jrt.ino\<close> only, \<open>lastAccTime\<close> in \<^verbatim>\<open>part_001\<close> only), followed by the
  environment: \<open>clock\<close> is what \<^verbatim>\<open>millis()\<close> returns, \<open>eeprom\<close> is the byte stored at
  \<^verbatim>\<open>EEPROM_LAST_ON_MODE\<close>.
\<close>

record fw =
  mode :: byte
  lastOnMode :: byte
  btnTime :: ulong
  btnDown :: bool
  lastChargeState :: cint
  lastModeTime :: ulong
  oneSecondLoopTime :: ulong
  lastAccelTime :: ulong
  noAccelShutoffTime :: ulong
  poweringOffTime :: ulong
  lastAccTime :: ulong
  clock :: ulong
  eeprom :: byte
  pins :: "nat \<Rightarrow> level"
  trace :: "hw_event list"

text \<open>
  What one pass of \<^verbatim>\<open>loop\<close> reads from the hardware: the button line, the two analog
  channels (\<^verbatim>\<open>analogRead\<close> returns an \<^verbatim>\<open>int\<close> between 0 and 1023), the accelerometer's
  interrupt line and its tilt register.
\<close>

record inputs =
  in_button :: bool
  in_charge :: int
  in_temp :: int
  in_accInt :: bool
  in_tilt :: byte

definition millis :: "fw \<Rightarrow> ulong" where
  "millis s = clock s"

text \<open>\<^verbatim>\<open>delay(ms)\<close> blocks: nothing else runs, and the clock advances by \<open>ms\<close>.\<close>

definition delay :: "ulong \<Rightarrow> fw \<Rightarrow> fw" where
  "delay ms s = s\<lparr>clock := clock s + ms, trace := trace s @ [Delay ms]\<rparr>"

definition pinMode :: "nat \<Rightarrow> bool \<Rightarrow> fw \<Rightarrow> fw" where
  "pinMode pin dir s = s\<lparr>trace := trace s @ [PinMode pin dir]\<rparr>"

definition digitalWrite :: "nat \<Rightarrow> bool \<Rightarrow> fw \<Rightarrow> fw" where
  "digitalWrite pin v s =
     s\<lparr>pins := (pins s)(pin := Digital v), trace := trace s @ [DigitalWrite pin v]\<rparr>"

definition analogWrite :: "nat \<Rightarrow> byte \<Rightarrow> fw \<Rightarrow> fw" where
  "analogWrite pin v s =
     s\<lparr>pins := (pins s)(pin := Pwm v), trace := trace s @ [AnalogWrite pin v]\<rparr>"

subsection \<open>\<^verbatim>\<open>hexbright_jrt.ino\<close>\<close>

text \<open>
  \<^verbatim>\<open>resetAccelTimeout\<close>: the \<^verbatim>\<open>int\<close> constant is converted to \<^verbatim>\<open>unsigned long\<close> (with its
  sign) before the addition. The same text is in \<^verbatim>\<open>part_000\<close>.
\<close>

definition resetAccelTimeout :: "fw \<Rightarrow> fw" where
  "resetAccelTimeout s =
     (let time = millis s
      in s\<lparr>lastAccelTime := time,
           noAccelShutoffTime := time + scast noAccelShutoffMilliseconds\<rparr>)"

text \<open>
  \<^verbatim>\<open>setLight\<close> calls itself in the blinking case, with \<^verbatim>\<open>lastOnMode\<close> as the argument.
  Should \<^verbatim>\<open>lastOnMode\<close> itself be a blinking mode the recursion would never end, which is
  the value \<open>None\<close> here.
\<close>

partial_function (option) setLight :: "byte \<Rightarrow> fw \<Rightarrow> fw option" where
  "setLight lightMode s =
     do {
       s \<leftarrow>
         (if lightMode = MODE_OFF then
            (let s = digitalWrite DPIN_DRV_MODE LOW s;
                 s = digitalWrite DPIN_DRV_EN LOW s
             in Some (s\<lparr>poweringOffTime :=
                          millis s + scast (buttonTimeoutToOffMilliseconds * 3)\<rparr>))
          else if lightMode = MODE_LOW then
            (let s = pinMode DPIN_PWR OUTPUT s;
                 s = digitalWrite DPIN_PWR HIGH s;
                 s = digitalWrite DPIN_DRV_MODE LOW s;
                 s = analogWrite DPIN_DRV_EN 64 s
             in Some (s\<lparr>lastOnMode := lightMode, poweringOffTime := 0\<rparr>))
          else if lightMode = MODE_MED then
            (let s = pinMode DPIN_PWR OUTPUT s;
                 s = digitalWrite DPIN_PWR HIGH s;
                 s = digitalWrite DPIN_DRV_MODE LOW s;
                 s = analogWrite DPIN_DRV_EN 255 s
             in Some (s\<lparr>lastOnMode := lightMode, poweringOffTime := 0\<rparr>))
          else if lightMode = MODE_HIGH then
            (let s = pinMode DPIN_PWR OUTPUT s;
                 s = digitalWrite DPIN_PWR HIGH s;
                 s = digitalWrite DPIN_DRV_MODE HIGH s;
                 s = analogWrite DPIN_DRV_EN 255 s
             in Some (s\<lparr>lastOnMode := lightMode, poweringOffTime := 0\<rparr>))
          else if lightMode = MODE_BLINKING \<or> lightMode = MODE_BLINKING_PREVIEW then
            do {
              s \<leftarrow> setLight (lastOnMode s) s;
              Some (s\<lparr>poweringOffTime := 0\<rparr>)
            }
          else Some s);
       let s = s\<lparr>mode := lightMode\<rparr>;
       let s = (if mode s = MODE_BLINKING_PREVIEW then s\<lparr>mode := MODE_BLINKING\<rparr> else s);
       Some (resetAccelTimeout s)
     }"

declare setLight.simps [code]

definition setLightOff :: "fw \<Rightarrow> fw option" where
  "setLightOff s = setLight MODE_OFF s"

definition setLightLow :: "fw \<Rightarrow> fw option" where
  "setLightLow s = setLight MODE_LOW s"

definition setLightMed :: "fw \<Rightarrow> fw option" where
  "setLightMed s = setLight MODE_MED s"

definition setLightHigh :: "fw \<Rightarrow> fw option" where
  "setLightHigh s = setLight MODE_HIGH s"

definition setLightBlinking :: "fw \<Rightarrow> fw option" where
  "setLightBlinking s = setLight MODE_BLINKING s"

text \<open>
  \<^verbatim>\<open>powerOff\<close>: the EEPROM byte is written only if it differs from \<^verbatim>\<open>lastOnMode\<close>.
\<close>

definition powerOff :: "fw \<Rightarrow> fw" where
  "powerOff s =
     (let s = pinMode DPIN_PWR OUTPUT s;
          s = digitalWrite DPIN_PWR LOW s;
          s = digitalWrite DPIN_DRV_MODE LOW s;
          s = digitalWrite DPIN_DRV_EN LOW s;
          eepromLastOnMode = eeprom s
      in if eepromLastOnMode \<noteq> lastOnMode s
         then s\<lparr>eeprom := lastOnMode s,
                trace := trace s @ [EepromWrite EEPROM_LAST_ON_MODE (lastOnMode s)]\<rparr>
         else s)"

text \<open>
  \<^verbatim>\<open>checkTemperature\<close>: the \<^verbatim>\<open>for\<close> loop is \<open>overheatBlink\<close>, started at \<open>i = 0\<close>.
\<close>

function overheatBlink :: "nat \<Rightarrow> fw \<Rightarrow> fw option" where
  "overheatBlink i s =
     (if i < 6 then
        do {
          s \<leftarrow> setLightLow s;
          let s = delay 100 s;
          s \<leftarrow> setLightHigh s;
          let s = delay 100 s;
          overheatBlink (i + 1) s
        }
      else Some s)"
  by pat_completeness auto
termination
  by (relation "measure (\<lambda>(i, s). 6 - i)") auto

declare overheatBlink.simps [simp del]

definition checkTemperature :: "int \<Rightarrow> fw \<Rightarrow> fw option" where
  "checkTemperature temperature s =
     (if temperature > OVERTEMP \<and> mode s \<noteq> MODE_OFF then
        do {
          s \<leftarrow> overheatBlink 0 s;
          setLightLow s
        }
      else Some s)"

text \<open>
  \<^verbatim>\<open>checkAccel\<close>: the tilt register is read only while the interrupt line is low. The same
  text is in \<^verbatim>\<open>part_000\<close>.
\<close>

definition checkAccel :: "inputs \<Rightarrow> fw \<Rightarrow> fw" where
  "checkAccel inp s =
     (let time = millis s
      in if \<not> in_accInt inp then
           (let tilt = in_tilt inp;
                tapped = (tilt AND 0x20 \<noteq> 0);
                shaked = (tilt AND 0x80 \<noteq> 0);
                s = (if tapped then resetAccelTimeout (s\<lparr>lastAccelTime := time\<rparr>) else s);
                s = (if shaked then resetAccelTimeout (s\<lparr>lastAccelTime := time\<rparr>) else s)
            in s)
         else s)"

definition checkChargeState :: "inputs \<Rightarrow> fw \<Rightarrow> fw" where
  "checkChargeState inp s =
     (let time = millis s;
          chargeState = in_charge inp
      in if chargeState < 128 then
           digitalWrite DPIN_GLED (if time AND 0x0100 \<noteq> 0 then LOW else HIGH) s
         else if chargeState > 768 then
           digitalWrite DPIN_GLED HIGH s
         else
           digitalWrite DPIN_GLED LOW s)"

definition oneSecondLoop :: "inputs \<Rightarrow> fw \<Rightarrow> fw option" where
  "oneSecondLoop inp s =
     (let time = millis s
      in if time - oneSecondLoopTime s < 1000 then Some s
         else
           do {
             let s = s\<lparr>oneSecondLoopTime := time\<rparr>;
             s \<leftarrow> checkTemperature (in_temp inp) s;
             let s = pinMode DPIN_RLED_SW OUTPUT s;
             let s = pinMode DPIN_RLED_SW INPUT s;
             let s = checkAccel inp s;
             if time > noAccelShutoffTime s \<and> mode s \<noteq> MODE_OFF
             then setLightOff s
             else Some s
           })"

text \<open>
  \<^verbatim>\<open>loop\<close> is modelled in parts. \<open>loop_newMode\<close> is the \<^verbatim>\<open>switch\<close> that computes
  \<^verbatim>\<open>newMode\<close> from the button (it also writes \<^verbatim>\<open>lastModeTime\<close> in one branch),
  \<open>loop_transition\<close> is the block under \<^verbatim>\<open>if (newMode != mode)\<close> and \<open>loop_button\<close> is
  the block that remembers the button state. \<open>loop_modeChange\<close> runs the three in
  order: it is \<^verbatim>\<open>loop\<close> from the comment \<^verbatim>\<open>// Check for mode changes\<close> to its end, with
  \<^verbatim>\<open>time\<close> and the sampled button level as arguments. \<open>loop\<close> puts it after the
  power-off check, the periodic work and the blink output.
\<close>

definition loop_newMode :: "ulong \<Rightarrow> bool \<Rightarrow> fw \<Rightarrow> byte \<times> fw" where
  "loop_newMode time newBtnDown s =
     (if mode s = MODE_OFF then
        (if btnDown s \<and> \<not> newBtnDown \<and> time - btnTime s > 20 then
           (if lastModeTime s = 0 \<or> time - lastModeTime s > 1000
            then (lastOnMode s, s\<lparr>lastModeTime := time\<rparr>)
            else (MODE_LOW, s))
         else if btnDown s \<and> newBtnDown \<and> time - btnTime s > 500 then
           (MODE_BLINKING_PREVIEW, s)
         else (mode s, s))
      else if mode s = MODE_LOW then
        (if btnDown s \<and> \<not> newBtnDown \<and> time - btnTime s > 50 then
           (if time - lastModeTime s > scast buttonTimeoutToOffMilliseconds
            then (MODE_OFF, s)
            else (MODE_MED, s))
         else (mode s, s))
      else if mode s = MODE_MED then
        (if btnDown s \<and> \<not> newBtnDown \<and> time - btnTime s > 50 then
           (if time - lastModeTime s > scast buttonTimeoutToOffMilliseconds
            then (MODE_OFF, s)
            else (MODE_HIGH, s))
         else (mode s, s))
      else if mode s = MODE_HIGH then
        (if btnDown s \<and> \<not> newBtnDown \<and> time - btnTime s > 50
         then (MODE_OFF, s)
         else (mode s, s))
      else if mode s = MODE_BLINKING_PREVIEW then
        (if btnDown s \<and> \<not> newBtnDown
         then (MODE_BLINKING, s)
         else (mode s, s))
      else if mode s = MODE_BLINKING then
        (if btnDown s \<and> \<not> newBtnDown \<and> time - btnTime s > 50 then
           (if time - lastModeTime s > 2000
            then (MODE_OFF, s)
            else (mode s, s))
         else (mode s, s))
      else (mode s, s))"

definition loop_transition :: "ulong \<Rightarrow> byte \<Rightarrow> fw \<Rightarrow> fw option" where
  "loop_transition time newMode s =
     (if newMode \<noteq> mode s then
        (let s = s\<lparr>lastModeTime := time\<rparr>
         in if newMode = MODE_OFF then setLightOff s
            else if newMode = MODE_LOW then setLightLow s
            else if newMode = MODE_MED then setLightMed s
            else if newMode = MODE_HIGH then setLightHigh s
            else if newMode = MODE_BLINKING \<or> newMode = MODE_BLINKING_PREVIEW
            then setLightBlinking s
            else Some s)
      else Some s)"

definition loop_button :: "ulong \<Rightarrow> bool \<Rightarrow> fw \<Rightarrow> fw" where
  "loop_button time newBtnDown s =
     (if newBtnDown \<noteq> btnDown s
      then delay 50 (s\<lparr>btnTime := time, btnDown := newBtnDown\<rparr>)
      else s)"

definition loop_modeChange :: "ulong \<Rightarrow> bool \<Rightarrow> fw \<Rightarrow> fw option" where
  "loop_modeChange time newBtnDown s =
     do {
       let (newMode, s) = loop_newMode time newBtnDown s;
       s \<leftarrow> loop_transition time newMode s;
       Some (loop_button time newBtnDown s)
     }"

definition loop :: "inputs \<Rightarrow> fw \<Rightarrow> fw option" where
  "loop inp s =
     (let time = millis s
      in if poweringOffTime s > 0 \<and> time > poweringOffTime s then Some (powerOff s)
         else
           do {
             let s = checkChargeState inp s;
             s \<leftarrow> oneSecondLoop inp s;
             let s = (if mode s = MODE_BLINKING \<or> mode s = MODE_BLINKING_PREVIEW
                      then digitalWrite DPIN_DRV_EN (time mod 600 < 450) s
                      else s);
             loop_modeChange time (in_button inp) s
           })"

text \<open>
  Power-on: every global has its C initialiser, the clock starts at \<open>t\<close>, the EEPROM
  byte is what the previous run left there, and no pin has been written.
\<close>

definition power_on :: "ulong \<Rightarrow> byte \<Rightarrow> fw" where
  "power_on t e =
     \<lparr>mode = 0, lastOnMode = 0, btnTime = 0, btnDown = False, lastChargeState = 0,
      lastModeTime = 0, oneSecondLoopTime = 0, lastAccelTime = 0, noAccelShutoffTime = 0,
      poweringOffTime = 0, lastAccTime = 0, clock = t, eeprom = e,
      pins = (\<lambda>_. Digital LOW), trace = []\<rparr>"

text \<open>
  \<^verbatim>\<open>setup\<close> of \<^verbatim>\<open>hexbright_jrt.ino\<close> (the name is a keyword of Isabelle, hence the
  suffix). The configuration of the accelerometer over the bus is left out.
\<close>

definition setup_jrt :: "inputs \<Rightarrow> fw \<Rightarrow> fw" where
  "setup_jrt inp s =
     (let time = millis s;
          s = pinMode DPIN_PWR INPUT s;
          s = digitalWrite DPIN_PWR LOW s;
          s = pinMode DPIN_RLED_SW INPUT s;
          s = pinMode DPIN_GLED OUTPUT s;
          s = pinMode DPIN_DRV_MODE OUTPUT s;
          s = pinMode DPIN_DRV_EN OUTPUT s;
          s = pinMode DPIN_ACC_INT INPUT s;
          s = pinMode DPIN_PGOOD INPUT s;
          s = digitalWrite DPIN_DRV_MODE LOW s;
          s = digitalWrite DPIN_DRV_EN LOW s;
          s = digitalWrite DPIN_ACC_INT HIGH s;
          s = s\<lparr>btnTime := time, btnDown := in_button inp\<rparr>;
          s = s\<lparr>mode := MODE_OFF, lastOnMode := 0, btnTime := 0, btnDown := False,
                lastChargeState := 0, lastModeTime := 0, oneSecondLoopTime := 0,
                lastAccelTime := 0, noAccelShutoffTime := 0\<rparr>;
          s = s\<lparr>lastOnMode := eeprom s\<rparr>;
          s = (if lastOnMode s < MODE_LOW \<or> lastOnMode s > MODE_HIGH
               then s\<lparr>lastOnMode := MODE_MED\<rparr> else s)
      in resetAccelTimeout s)"

subsection \<open>\<^verbatim>\<open>part_000\<close>\<close>

text \<open>
  \<^verbatim>\<open>resetAccelTimeout\<close>, \<^verbatim>\<open>checkAccel\<close> and \<^verbatim>\<open>checkChargeState\<close> have the same text as in
  \<^verbatim>\<open>hexbright_jrt.ino\<close> and are shared. \<^verbatim>\<open>setLight\<close> differs: it cuts the power line when
  the light goes off, and it writes neither \<^verbatim>\<open>lastOnMode\<close> nor \<^verbatim>\<open>poweringOffTime\<close>.
\<close>

partial_function (option) setLight_000 :: "byte \<Rightarrow> fw \<Rightarrow> fw option" where
  "setLight_000 lightMode s =
     do {
       s \<leftarrow>
         (if lightMode = MODE_OFF then
            (let s = pinMode DPIN_PWR OUTPUT s;
                 s = digitalWrite DPIN_PWR LOW s;
                 s = digitalWrite DPIN_DRV_MODE LOW s;
                 s = digitalWrite DPIN_DRV_EN LOW s
             in Some s)
          else if lightMode = MODE_LOW then
            (let s = pinMode DPIN_PWR OUTPUT s;
                 s = digitalWrite DPIN_PWR HIGH s;
                 s = digitalWrite DPIN_DRV_MODE LOW s;
                 s = analogWrite DPIN_DRV_EN 64 s
             in Some s)
          else if lightMode = MODE_MED then
            (let s = pinMode DPIN_PWR OUTPUT s;
                 s = digitalWrite DPIN_PWR HIGH s;
                 s = digitalWrite DPIN_DRV_MODE LOW s;
                 s = analogWrite DPIN_DRV_EN 255 s
             in Some s)
          else if lightMode = MODE_HIGH then
            (let s = pinMode DPIN_PWR OUTPUT s;
                 s = digitalWrite DPIN_PWR HIGH s;
                 s = digitalWrite DPIN_DRV_MODE HIGH s;
                 s = analogWrite DPIN_DRV_EN 255 s
             in Some s)
          else if lightMode = MODE_BLINKING \<or> lightMode = MODE_BLINKING_PREVIEW then
            setLight_000 (lastOnMode s) s
          else Some s);
       let s = s\<lparr>mode := lightMode\<rparr>;
       let s = (if mode s = MODE_BLINKING_PREVIEW then s\<lparr>mode := MODE_BLINKING\<rparr> else s);
       Some (resetAccelTimeout s)
     }"

declare setLight_000.simps [code]

definition setLightOff_000 :: "fw \<Rightarrow> fw option" where
  "setLightOff_000 s = setLight_000 MODE_OFF s"

definition setLightLow_000 :: "fw \<Rightarrow> fw option" where
  "setLightLow_000 s = setLight_000 MODE_LOW s"

definition setLightMed_000 :: "fw \<Rightarrow> fw option" where
  "setLightMed_000 s = setLight_000 MODE_MED s"

definition setLightHigh_000 :: "fw \<Rightarrow> fw option" where
  "setLightHigh_000 s = setLight_000 MODE_HIGH s"

definition setLightBlinking_000 :: "fw \<Rightarrow> fw option" where
  "setLightBlinking_000 s = setLight_000 MODE_BLINKING s"

function overheatBlink_000 :: "nat \<Rightarrow> fw \<Rightarrow> fw option" where
  "overheatBlink_000 i s =
     (if i < 6 then
        do {
          s \<leftarrow> setLightLow_000 s;
          let s = delay 100 s;
          s \<leftarrow> setLightHigh_000 s;
          let s = delay 100 s;
          overheatBlink_000 (i + 1) s
        }
      else Some s)"
  by pat_completeness auto
termination
  by (relation "measure (\<lambda>(i, s). 6 - i)") auto

declare overheatBlink_000.simps [simp del]

definition checkTemperature_000 :: "int \<Rightarrow> fw \<Rightarrow> fw option" where
  "checkTemperature_000 temperature s =
     (if temperature > OVERTEMP \<and> mode s \<noteq> MODE_OFF then
        do {
          s \<leftarrow> overheatBlink_000 0 s;
          setLightLow_000 s
        }
      else Some s)"

definition oneSecondLoop_000 :: "inputs \<Rightarrow> fw \<Rightarrow> fw option" where
  "oneSecondLoop_000 inp s =
     (let time = millis s
      in if time - oneSecondLoopTime s < 1000 then Some s
         else
           do {
             let s = s\<lparr>oneSecondLoopTime := time\<rparr>;
             s \<leftarrow> checkTemperature_000 (in_temp inp) s;
             let s = pinMode DPIN_RLED_SW OUTPUT s;
             let s = pinMode DPIN_RLED_SW INPUT s;
             let s = checkAccel inp s;
             if time > noAccelShutoffTime s \<and> mode s \<noteq> MODE_OFF
             then setLightOff_000 s
             else Some s
           })"

text \<open>
  In the \<^verbatim>\<open>MODE_OFF\<close> case the two \<^verbatim>\<open>if\<close> statements follow each other without a
  \<^verbatim>\<open>break\<close>; their conditions exclude each other (\<^verbatim>\<open>!newBtnDown\<close> against
  \<^verbatim>\<open>newBtnDown\<close>), so the chain below takes the same branch.
\<close>

definition loop_newMode_000 :: "ulong \<Rightarrow> bool \<Rightarrow> fw \<Rightarrow> byte \<times> fw" where
  "loop_newMode_000 time newBtnDown s =
     (if mode s = MODE_OFF then
        (if btnDown s \<and> \<not> newBtnDown \<and> time - btnTime s > 20 then
           (if time - lastModeTime s > 1000
            then (lastOnMode s, s\<lparr>lastModeTime := time\<rparr>)
            else (MODE_LOW, s))
         else if btnDown s \<and> newBtnDown \<and> time - btnTime s > 500 then
           (MODE_BLINKING_PREVIEW, s)
         else (mode s, s))
      else if mode s = MODE_LOW then
        (if btnDown s \<and> \<not> newBtnDown \<and> time - btnTime s > 50 then
           (if time - lastModeTime s > scast buttonTimeoutToOffMilliseconds
            then (MODE_OFF, s)
            else (MODE_MED, s))
         else (mode s, s))
      else if mode s = MODE_MED then
        (if btnDown s \<and> \<not> newBtnDown \<and> time - btnTime s > 50 then
           (if time - lastModeTime s > scast buttonTimeoutToOffMilliseconds
            then (MODE_OFF, s)
            else (MODE_HIGH, s))
         else (mode s, s))
      else if mode s = MODE_HIGH then
        (if btnDown s \<and> \<not> newBtnDown \<and> time - btnTime s > 50
         then (MODE_OFF, s)
         else (mode s, s))
      else if mode s = MODE_BLINKING_PREVIEW then
        (if btnDown s \<and> \<not> newBtnDown
         then (MODE_BLINKING, s)
         else (mode s, s))
      else if mode s = MODE_BLINKING then
        (if btnDown s \<and> \<not> newBtnDown \<and> time - btnTime s > 50 then
           (if time - lastModeTime s > 3000
            then (MODE_OFF, s)
            else (mode s, s))
         else (mode s, s))
      else (mode s, s))"

definition loop_transition_000 :: "ulong \<Rightarrow> byte \<Rightarrow> fw \<Rightarrow> fw option" where
  "loop_transition_000 time newMode s =
     (if newMode \<noteq> mode s then
        (let s = s\<lparr>lastModeTime := time\<rparr>
         in if newMode = MODE_OFF then setLightOff_000 s
            else if newMode = MODE_LOW then
              do { s \<leftarrow> setLightLow_000 s; Some (s\<lparr>lastOnMode := newMode\<rparr>) }
            else if newMode = MODE_MED then
              do { s \<leftarrow> setLightMed_000 s; Some (s\<lparr>lastOnMode := newMode\<rparr>) }
            else if newMode = MODE_HIGH then
              do { s \<leftarrow> setLightHigh_000 s; Some (s\<lparr>lastOnMode := newMode\<rparr>) }
            else if newMode = MODE_BLINKING \<or> newMode = MODE_BLINKING_PREVIEW
            then setLightBlinking_000 s
            else Some s)
      else Some s)"

definition loop_modeChange_000 :: "ulong \<Rightarrow> bool \<Rightarrow> fw \<Rightarrow> fw option" where
  "loop_modeChange_000 time newBtnDown s =
     do {
       let (newMode, s) = loop_newMode_000 time newBtnDown s;
       s \<leftarrow> loop_transition_000 time newMode s;
       Some (loop_button time newBtnDown s)
     }"

definition loop_000 :: "inputs \<Rightarrow> fw \<Rightarrow> fw option" where
  "loop_000 inp s =
     (let time = millis s
      in do {
           let s = checkChargeState inp s;
           s \<leftarrow> oneSecondLoop_000 inp s;
           let s = (if mode s = MODE_BLINKING \<or> mode s = MODE_BLINKING_PREVIEW
                    then digitalWrite DPIN_DRV_EN (time mod 600 < 450) s
                    else s);
           loop_modeChange_000 time (in_button inp) s
         })"

text \<open>\<^verbatim>\<open>byte lastOnMode = defaultMode;\<close> is the only initialiser that is not zero.\<close>

definition power_on_000 :: "ulong \<Rightarrow> fw" where
  "power_on_000 t = (power_on t 0)\<lparr>lastOnMode := ucast defaultMode\<rparr>"

definition setup_000 :: "inputs \<Rightarrow> fw \<Rightarrow> fw option" where
  "setup_000 inp s =
     (let s = pinMode DPIN_PWR INPUT s;
          s = digitalWrite DPIN_PWR LOW s;
          s = pinMode DPIN_RLED_SW INPUT s;
          s = pinMode DPIN_GLED OUTPUT s;
          s = pinMode DPIN_DRV_MODE OUTPUT s;
          s = pinMode DPIN_DRV_EN OUTPUT s;
          s = pinMode DPIN_ACC_INT INPUT s;
          s = pinMode DPIN_PGOOD INPUT s;
          s = digitalWrite DPIN_DRV_MODE LOW s;
          s = digitalWrite DPIN_DRV_EN LOW s;
          s = digitalWrite DPIN_ACC_INT HIGH s
      in do {
           s \<leftarrow> setLightOff_000 s;
           let s = s\<lparr>btnTime := millis s, btnDown := in_button inp\<rparr>;
           Some (resetAccelTimeout s)
         })"

subsection \<open>\<^verbatim>\<open>readAccel\<close> (\<^verbatim>\<open>part_000\<close> and \<^verbatim>\<open>part_001\<close>, the same text)\<close>

text \<open>
  The bus is the list of the replies of the sensor, one per \<^verbatim>\<open>Wire.requestFrom\<close>; a
  request on an exhausted bus gets no byte. \<open>readAccel_for\<close> is the \<^verbatim>\<open>for\<close> loop:
  \<open>rx\<close> holds the bytes still \<^verbatim>\<open>available()\<close>, and each of the two \<^verbatim>\<open>continue\<close> statements
  goes on with the next \<open>i\<close>, since \<^verbatim>\<open>for\<close> is the loop that encloses them. The body of
  \<^verbatim>\<open>while (1)\<close> ends with \<^verbatim>\<open>break\<close> and no statement of it continues the \<^verbatim>\<open>while\<close>, so it
  runs once: one request, one pass over the three bytes. \<open>acc\<close> is the caller's array
  of three \<^verbatim>\<open>char\<close>; an entry that is not written keeps what the caller had there.
\<close>

function readAccel_for :: "nat \<Rightarrow> byte list \<Rightarrow> byte list \<Rightarrow> byte list" where
  "readAccel_for i acc rx =
     (if i < 3 then
        (case rx of
           [] \<Rightarrow> readAccel_for (i + 1) acc rx
         | b # rx \<Rightarrow>
             (let acc = acc[i := b]
              in if b AND 0x40 \<noteq> 0 then readAccel_for (i + 1) acc rx
                 else if b AND 0x20 \<noteq> 0 then readAccel_for (i + 1) (acc[i := b OR 0xC0]) rx
                 else readAccel_for (i + 1) acc rx))
      else acc)"
  by pat_completeness auto
termination
  by (relation "measure (\<lambda>(i, acc, rx). 3 - i)") auto

declare readAccel_for.simps [simp del]

definition readAccel :: "byte list list \<Rightarrow> byte list \<Rightarrow> byte list \<times> byte list list" where
  "readAccel bus acc =
     (let rx = (case bus of [] \<Rightarrow> [] | reply # _ \<Rightarrow> take 3 reply);
          bus = tl bus
      in (readAccel_for 0 acc rx, bus))"

subsection \<open>\<^verbatim>\<open>part_001\<close>\<close>

text \<open>
  This revision has no \<^verbatim>\<open>setLight\<close>: \<^verbatim>\<open>loop\<close> drives the lines itself and assigns
  \<^verbatim>\<open>mode = newMode\<close>. Its \<^verbatim>\<open>chargeState\<close> has the text of \<^verbatim>\<open>checkChargeState\<close>. As in
  \<^verbatim>\<open>part_000\<close>, the two \<^verbatim>\<open>if\<close> statements of the \<^verbatim>\<open>MODE_OFF\<close> case exclude each other.
  Its \<^verbatim>\<open>checkAccel\<close> only prints what it reads, apart from \<^verbatim>\<open>lastAccTime\<close>.
\<close>

definition loop_newMode_001 :: "ulong \<Rightarrow> bool \<Rightarrow> fw \<Rightarrow> byte \<times> fw" where
  "loop_newMode_001 time newBtnDown s =
     (if mode s = MODE_OFF then
        (if btnDown s \<and> \<not> newBtnDown \<and> time - btnTime s > 20 then
           (if time - lastModeTime s > 2500
            then (lastOnMode s, s\<lparr>lastModeTime := time\<rparr>)
            else (MODE_MED, s))
         else if btnDown s \<and> newBtnDown \<and> time - btnTime s > 500 then
           (MODE_BLINKING_PREVIEW, s)
         else (mode s, s))
      else if mode s = MODE_LOW then
        (if btnDown s \<and> \<not> newBtnDown \<and> time - btnTime s > 50 then
           (if time - lastModeTime s > 5000
            then (MODE_OFF, s)
            else (MODE_MED, s))
         else (mode s, s))
      else if mode s = MODE_MED then
        (if btnDown s \<and> \<not> newBtnDown \<and> time - btnTime s > 50 then
           (if time - lastModeTime s > 5000
            then (MODE_OFF, s)
            else (MODE_HIGH, s))
         else (mode s, s))
      else if mode s = MODE_HIGH then
        (if btnDown s \<and> \<not> newBtnDown \<and> time - btnTime s > 50
         then (MODE_OFF, s)
         else (mode s, s))
      else if mode s = MODE_BLINKING_PREVIEW then
        (if btnDown s \<and> \<not> newBtnDown
         then (MODE_BLINKING, s)
         else (mode s, s))
      else if mode s = MODE_BLINKING then
        (if btnDown s \<and> \<not> newBtnDown \<and> time - btnTime s > 50
         then (MODE_OFF, s)
         else (mode s, s))
      else (mode s, s))"

definition loop_transition_001 :: "ulong \<Rightarrow> byte \<Rightarrow> fw \<Rightarrow> fw" where
  "loop_transition_001 time newMode s =
     (if newMode \<noteq> mode s then
        (let s = s\<lparr>lastModeTime := time\<rparr>;
             s =
               (if newMode = MODE_OFF then
                  (let s = pinMode DPIN_PWR OUTPUT s;
                       s = digitalWrite DPIN_PWR LOW s;
                       s = digitalWrite DPIN_DRV_MODE LOW s;
                       s = digitalWrite DPIN_DRV_EN LOW s
                   in s)
                else if newMode = MODE_LOW then
                  (let s = pinMode DPIN_PWR OUTPUT s;
                       s = digitalWrite DPIN_PWR HIGH s;
                       s = digitalWrite DPIN_DRV_MODE LOW s;
                       s = analogWrite DPIN_DRV_EN 64 s
                   in s\<lparr>lastOnMode := newMode\<rparr>)
                else if newMode = MODE_MED then
                  (let s = pinMode DPIN_PWR OUTPUT s;
                       s = digitalWrite DPIN_PWR HIGH s;
                       s = digitalWrite DPIN_DRV_MODE LOW s;
                       s = analogWrite DPIN_DRV_EN 255 s
                   in s\<lparr>lastOnMode := newMode\<rparr>)
                else if newMode = MODE_HIGH then
                  (let s = pinMode DPIN_PWR OUTPUT s;
                       s = digitalWrite DPIN_PWR HIGH s;
                       s = digitalWrite DPIN_DRV_MODE HIGH s;
                       s = analogWrite DPIN_DRV_EN 255 s
                   in s\<lparr>lastOnMode := newMode\<rparr>)
                else if newMode = MODE_BLINKING \<or> newMode = MODE_BLINKING_PREVIEW then
                  (let s = pinMode DPIN_PWR OUTPUT s;
                       s = digitalWrite DPIN_PWR HIGH s;
                       s = digitalWrite DPIN_DRV_MODE HIGH s
                   in s)
                else s)
         in s\<lparr>mode := newMode\<rparr>)
      else s)"

definition loop_modeChange_001 :: "ulong \<Rightarrow> bool \<Rightarrow> fw \<Rightarrow> fw" where
  "loop_modeChange_001 time newBtnDown s =
     (let (newMode, s) = loop_newMode_001 time newBtnDown s;
          s = loop_transition_001 time newMode s
      in loop_button time newBtnDown s)"

function overheatBlink_001 :: "nat \<Rightarrow> fw \<Rightarrow> fw" where
  "overheatBlink_001 i s =
     (if i < 6 then
        (let s = digitalWrite DPIN_DRV_MODE LOW s;
             s = delay 100 s;
             s = digitalWrite DPIN_DRV_MODE HIGH s;
             s = delay 100 s
         in overheatBlink_001 (i + 1) s)
      else s)"
  by pat_completeness auto
termination
  by (relation "measure (\<lambda>(i, s). 6 - i)") auto

declare overheatBlink_001.simps [simp del]

definition oneSecondLoop_001 :: "inputs \<Rightarrow> fw \<Rightarrow> fw" where
  "oneSecondLoop_001 inp s =
     (let time = millis s
      in if time - oneSecondLoopTime s > 1000 then
           (let s = s\<lparr>oneSecondLoopTime := time\<rparr>;
                temperature = in_temp inp;
                s = (if temperature > OVERTEMP \<and> mode s \<noteq> MODE_OFF then
                       (let s = overheatBlink_001 0 s;
                            s = digitalWrite DPIN_DRV_MODE LOW s
                        in s\<lparr>mode := MODE_LOW\<rparr>)
                     else s);
                s = pinMode DPIN_RLED_SW OUTPUT s;
                s = pinMode DPIN_RLED_SW INPUT s
            in s)
         else s)"

definition checkAccel_001 :: "inputs \<Rightarrow> fw \<Rightarrow> fw" where
  "checkAccel_001 inp s =
     (let time = millis s
      in if \<not> in_accInt inp then
           (if millis s - lastAccTime s > 500 then s\<lparr>lastAccTime := time\<rparr> else s)
         else s)"

definition loop_001 :: "inputs \<Rightarrow> fw \<Rightarrow> fw" where
  "loop_001 inp s =
     (let time = millis s;
          s = checkChargeState inp s;
          s = oneSecondLoop_001 inp s;
          s = checkAccel_001 inp s;
          s = (if mode s = MODE_BLINKING \<or> mode s = MODE_BLINKING_PREVIEW
               then digitalWrite DPIN_DRV_EN (time mod 600 < 450) s
               else s)
      in loop_modeChange_001 time (in_button inp) s)"

text \<open>\<^verbatim>\<open>byte lastOnMode = MODE_MED;\<close> is the only initialiser that is not zero.\<close>

definition power_on_001 :: "ulong \<Rightarrow> fw" where
  "power_on_001 t = (power_on t 0)\<lparr>lastOnMode := MODE_MED\<rparr>"

definition setup_001 :: "inputs \<Rightarrow> fw \<Rightarrow> fw" where
  "setup_001 inp s =
     (let s = pinMode DPIN_PWR INPUT s;
          s = digitalWrite DPIN_PWR LOW s;
          s = pinMode DPIN_RLED_SW INPUT s;
          s = pinMode DPIN_GLED OUTPUT s;
          s = pinMode DPIN_DRV_MODE OUTPUT s;
          s = pinMode DPIN_DRV_EN OUTPUT s;
          s = pinMode DPIN_ACC_INT INPUT s;
          s = pinMode DPIN_PGOOD INPUT s;
          s = digitalWrite DPIN_DRV_MODE LOW s;
          s = digitalWrite DPIN_DRV_EN LOW s;
          s = digitalWrite DPIN_ACC_INT HIGH s
      in s\<lparr>btnTime := millis s, btnDown := in_button inp, mode := MODE_OFF\<rparr>)"

subsection \<open>Properties used by the statements below\<close>

text \<open>\<^verbatim>\<open>lastOnMode\<close> is one of the three steady brightness levels.\<close>

definition lastOnMode_ok :: "fw \<Rightarrow> bool" where
  "lastOnMode_ok s =
     (lastOnMode s = MODE_LOW \<or> lastOnMode s = MODE_MED \<or> lastOnMode s = MODE_HIGH)"

text \<open>The EEPROM writes among the recorded events.\<close>

fun isEepromWrite :: "hw_event \<Rightarrow> bool" where
  "isEepromWrite (EepromWrite a v) = True"
| "isEepromWrite e = False"

definition eepromWrites :: "fw \<Rightarrow> hw_event list" where
  "eepromWrites s = filter isEepromWrite (trace s)"

text \<open>
  What the hardware sees during the overtemperature sequence. \<open>lowEvents\<close> and
  \<open>highEvents\<close> are the writes of \<^verbatim>\<open>setLight\<close> for \<^verbatim>\<open>MODE_LOW\<close> and \<^verbatim>\<open>MODE_HIGH\<close> (the same
  in \<^verbatim>\<open>hexbright_jrt.ino\<close> and \<^verbatim>\<open>part_000\<close>); \<open>overheatEvents\<close> is six times low, 100 ms,
  high, 100 ms, and then low. In \<^verbatim>\<open>part_001\<close> the sequence toggles the driver-mode line
  only.
\<close>

definition lowEvents :: "hw_event list" where
  "lowEvents =
     [PinMode DPIN_PWR OUTPUT, DigitalWrite DPIN_PWR HIGH,
      DigitalWrite DPIN_DRV_MODE LOW, AnalogWrite DPIN_DRV_EN 64]"

definition highEvents :: "hw_event list" where
  "highEvents =
     [PinMode DPIN_PWR OUTPUT, DigitalWrite DPIN_PWR HIGH,
      DigitalWrite DPIN_DRV_MODE HIGH, AnalogWrite DPIN_DRV_EN 255]"

definition overheatEvents :: "hw_event list" where
  "overheatEvents =
     concat (replicate 6 (lowEvents @ [Delay 100] @ highEvents @ [Delay 100])) @ lowEvents"

definition overheatEvents_001 :: "hw_event list" where
  "overheatEvents_001 =
     concat (replicate 6
       [DigitalWrite DPIN_DRV_MODE LOW, Delay 100, DigitalWrite DPIN_DRV_MODE HIGH, Delay 100])
     @ [DigitalWrite DPIN_DRV_MODE LOW]"

text \<open>
  The drive of the low brightness level, in all three revisions: driver-mode line low,
  enable line at PWM duty 64.
\<close>

definition lowOutput :: "fw \<Rightarrow> bool" where
  "lowOutput s = (pins s DPIN_DRV_MODE = Digital LOW \<and> pins s DPIN_DRV_EN = Pwm 64)"

text \<open>
  \<open>keeps s s'\<close>: in \<open>s'\<close> \<^verbatim>\<open>lastOnMode\<close> is a steady level, and neither the EEPROM byte nor
  the list of EEPROM writes differs from \<open>s\<close>.
\<close>

definition keeps :: "fw \<Rightarrow> fw \<Rightarrow> bool" where
  "keeps s s' =
     (lastOnMode_ok s' \<and> eeprom s' = eeprom s \<and> eepromWrites s' = eepromWrites s)"

section \<open>Auxiliary lemmas\<close>

subsection \<open>The constants as \<^verbatim>\<open>unsigned long\<close> values\<close>

lemma scast_buttonTimeout: "(scast buttonTimeoutToOffMilliseconds :: ulong) = 2000"
  by (simp add: buttonTimeoutToOffMilliseconds_def)
lemma scast_buttonTimeout3: "(scast (buttonTimeoutToOffMilliseconds * 3) :: ulong) = 6000"
  by (simp add: buttonTimeoutToOffMilliseconds_def)
lemma scast_noAccel: "(scast noAccelShutoffMilliseconds :: ulong) = 30528"
  by (simp add: noAccelShutoffMilliseconds_def)

subsection \<open>What \<^verbatim>\<open>setLight\<close> returns, case by case\<close>

lemmas hw_defs = millis_def delay_def pinMode_def digitalWrite_def analogWrite_def
  resetAccelTimeout_def Let_def

lemma setLight_OFF:
  "setLight MODE_OFF s =
     Some (resetAccelTimeout
       ((digitalWrite DPIN_DRV_EN LOW (digitalWrite DPIN_DRV_MODE LOW s))
          \<lparr>poweringOffTime := clock s + 6000, mode := MODE_OFF\<rparr>))"
  by (subst setLight.simps) (simp add: Let_def hw_defs scast_buttonTimeout3)

lemma setLight_LOW:
  "setLight MODE_LOW s =
     Some (resetAccelTimeout
       ((analogWrite DPIN_DRV_EN 64 (digitalWrite DPIN_DRV_MODE LOW
          (digitalWrite DPIN_PWR HIGH (pinMode DPIN_PWR OUTPUT s))))
          \<lparr>lastOnMode := MODE_LOW, poweringOffTime := 0, mode := MODE_LOW\<rparr>))"
  by (subst setLight.simps) (simp add: Let_def)

lemma setLight_MED:
  "setLight MODE_MED s =
     Some (resetAccelTimeout
       ((analogWrite DPIN_DRV_EN 255 (digitalWrite DPIN_DRV_MODE LOW
          (digitalWrite DPIN_PWR HIGH (pinMode DPIN_PWR OUTPUT s))))
          \<lparr>lastOnMode := MODE_MED, poweringOffTime := 0, mode := MODE_MED\<rparr>))"
  by (subst setLight.simps) (simp add: Let_def)

lemma setLight_HIGH:
  "setLight MODE_HIGH s =
     Some (resetAccelTimeout
       ((analogWrite DPIN_DRV_EN 255 (digitalWrite DPIN_DRV_MODE HIGH
          (digitalWrite DPIN_PWR HIGH (pinMode DPIN_PWR OUTPUT s))))
          \<lparr>lastOnMode := MODE_HIGH, poweringOffTime := 0, mode := MODE_HIGH\<rparr>))"
  by (subst setLight.simps) (simp add: Let_def)

lemma setLight_steady:
  assumes "lastOnMode_ok s"
  shows "setLight (lastOnMode s) s =
     Some (resetAccelTimeout
       ((analogWrite DPIN_DRV_EN (if lastOnMode s = MODE_LOW then 64 else 255)
          (digitalWrite DPIN_DRV_MODE (lastOnMode s = MODE_HIGH)
            (digitalWrite DPIN_PWR HIGH (pinMode DPIN_PWR OUTPUT s))))
          \<lparr>poweringOffTime := 0, mode := lastOnMode s\<rparr>))"
proof -
  consider "lastOnMode s = MODE_LOW" | "lastOnMode s = MODE_MED" | "lastOnMode s = MODE_HIGH"
    using assms unfolding lastOnMode_ok_def by blast
  then show ?thesis
  proof cases
    case 1
    then show ?thesis by (cases s) (simp add: setLight_LOW hw_defs)
  next
    case 2
    then show ?thesis by (cases s) (simp add: setLight_MED hw_defs)
  next
    case 3
    then show ?thesis by (cases s) (simp add: setLight_HIGH hw_defs)
  qed
qed

lemma setLight_BLINKING:
  assumes "lastOnMode_ok s" and "lm = MODE_BLINKING \<or> lm = MODE_BLINKING_PREVIEW"
  shows "setLight lm s =
     Some (resetAccelTimeout
       ((analogWrite DPIN_DRV_EN (if lastOnMode s = MODE_LOW then 64 else 255)
          (digitalWrite DPIN_DRV_MODE (lastOnMode s = MODE_HIGH)
            (digitalWrite DPIN_PWR HIGH (pinMode DPIN_PWR OUTPUT s))))
          \<lparr>poweringOffTime := 0, mode := MODE_BLINKING\<rparr>))"
proof -
  have "setLight lm s = 
     do { s \<leftarrow> do {
              s \<leftarrow> setLight (lastOnMode s) s;
              Some (s\<lparr>poweringOffTime := 0\<rparr>)
            };
       let s = s\<lparr>mode := lm\<rparr>;
       let s = (if mode s = MODE_BLINKING_PREVIEW then s\<lparr>mode := MODE_BLINKING\<rparr> else s);
       Some (resetAccelTimeout s)
     }"
    using assms(2) by (subst setLight.simps) auto
  then show ?thesis
    using assms(2) by (auto simp add: setLight_steady [OF assms(1)] Let_def hw_defs)
qed

lemma setLight_other:
  assumes "lm > MODE_BLINKING_PREVIEW"
  shows "setLight lm s = Some (resetAccelTimeout (s\<lparr>mode := lm\<rparr>))"
proof -
  have "lm \<noteq> 0" "lm \<noteq> 1" "lm \<noteq> 2" "lm \<noteq> 3" "lm \<noteq> 4" "lm \<noteq> 5"
    using assms by auto
  then show ?thesis
    by (subst setLight.simps) (simp add: Let_def)
qed

lemma setLight_result:
  assumes "lastOnMode_ok s \<or> (lm \<noteq> MODE_BLINKING \<and> lm \<noteq> MODE_BLINKING_PREVIEW)"
  shows "\<exists>s'. setLight lm s = Some s' \<and>
           mode s' = (if lm = MODE_BLINKING_PREVIEW then MODE_BLINKING else lm) \<and>
           lastOnMode s' =
             (if lm = MODE_LOW \<or> lm = MODE_MED \<or> lm = MODE_HIGH then lm else lastOnMode s) \<and>
           noAccelShutoffTime s' = clock s + scast noAccelShutoffMilliseconds \<and>
           clock s' = clock s \<and> eeprom s' = eeprom s \<and> eepromWrites s' = eepromWrites s \<and>
           btnDown s' = btnDown s \<and> btnTime s' = btnTime s \<and>
           lastModeTime s' = lastModeTime s \<and> oneSecondLoopTime s' = oneSecondLoopTime s"
proof -
  consider "lm = 0" | "lm = 1" | "lm = 2" | "lm = 3"
    | "lm = 4 \<or> lm = 5" "lastOnMode_ok s"
    | "lm \<noteq> 0" "lm \<noteq> 1" "lm \<noteq> 2" "lm \<noteq> 3" "lm \<noteq> 4" "lm \<noteq> 5"
    using assms by blast
  then show ?thesis
  proof cases
    case 1 then show ?thesis by (simp add: setLight_OFF hw_defs eepromWrites_def)
  next
    case 2 then show ?thesis by (simp add: setLight_LOW hw_defs eepromWrites_def)
  next
    case 3 then show ?thesis by (simp add: setLight_MED hw_defs eepromWrites_def)
  next
    case 4 then show ?thesis by (simp add: setLight_HIGH hw_defs eepromWrites_def)
  next
    case 5 then show ?thesis by (auto simp add: setLight_BLINKING hw_defs eepromWrites_def)
  next
    case 6 then show ?thesis
      by (subst setLight.simps) (simp add: hw_defs eepromWrites_def)
  qed
qed

subsection \<open>The mode after the button-driven part of \<^verbatim>\<open>loop\<close>\<close>

lemma mode_loop_button: "mode (loop_button time newBtnDown s) = mode s"
  by (simp add: loop_button_def hw_defs)

lemma loop_transition_mode:
  assumes "lastOnMode_ok s \<or> (newMode \<noteq> MODE_BLINKING \<and> newMode \<noteq> MODE_BLINKING_PREVIEW)"
    and "newMode \<noteq> mode s"
    and "newMode = 0 \<or> newMode = 1 \<or> newMode = 2 \<or> newMode = 3 \<or> newMode = 4 \<or> newMode = 5"
  shows "\<exists>s'. loop_transition time newMode s = Some s' \<and>
           mode s' = (if newMode = MODE_BLINKING_PREVIEW then MODE_BLINKING else newMode)"
proof (cases "newMode = 4 \<or> newMode = 5")
  case True
  then have ok: "lastOnMode_ok (s\<lparr>lastModeTime := time\<rparr>)"
    using assms(1) by (auto simp add: lastOnMode_ok_def)
  show ?thesis
    using assms(2) True setLight_result [OF disjI1 [OF ok], where lm = 4]
    by (auto simp add: loop_transition_def setLightBlinking_def Let_def)
next
  case False
  then have "setLight newMode (s\<lparr>lastModeTime := time\<rparr>) = Some s' \<Longrightarrow>
      loop_transition time newMode s = Some s'" for s'
    using assms(2,3)
    by (auto simp add: loop_transition_def setLightOff_def setLightLow_def setLightMed_def
        setLightHigh_def Let_def)
  then show ?thesis
    using False setLight_result [where lm = newMode and s = "s\<lparr>lastModeTime := time\<rparr>"]
    by auto
qed

lemma lastOnMode_ok_lastModeTime [simp]:
  "lastOnMode_ok (s\<lparr>lastModeTime := t\<rparr>) = lastOnMode_ok s"
  by (simp add: lastOnMode_ok_def)

lemma loop_modeChange_via:
  assumes "loop_newMode time nb s = (m, s1)" and "loop_transition time m s1 = Some s2"
  shows "loop_modeChange time nb s = Some (loop_button time nb s2)"
  using assms by (simp add: loop_modeChange_def)

lemma loop_modeChange_to:
  assumes "loop_newMode time nb s = (m, s1)"
    and "lastOnMode_ok s1 \<or> (m \<noteq> MODE_BLINKING \<and> m \<noteq> MODE_BLINKING_PREVIEW)"
    and "m \<noteq> mode s1"
    and "m = 0 \<or> m = 1 \<or> m = 2 \<or> m = 3 \<or> m = 4 \<or> m = 5"
  shows "\<exists>s'. loop_modeChange time nb s = Some s' \<and>
           mode s' = (if m = MODE_BLINKING_PREVIEW then MODE_BLINKING else m)"
proof -
  obtain s2 where "loop_transition time m s1 = Some s2"
    and "mode s2 = (if m = MODE_BLINKING_PREVIEW then MODE_BLINKING else m)"
    using loop_transition_mode [OF assms(2,3,4)] by blast
  then show ?thesis
    using loop_modeChange_via [OF assms(1)] by (simp add: mode_loop_button)
qed

lemma loop_modeChange_stay:
  assumes "loop_newMode time nb s = (mode s, s)"
  shows "\<exists>s'. loop_modeChange time nb s = Some s' \<and> mode s' = mode s"
  using assms by (simp add: loop_modeChange_def loop_transition_def mode_loop_button)

lemma cycle_jrt:
  assumes "btnDown s" and "\<not> nb"
  shows "(mode s = MODE_OFF \<and> 20 < time - btnTime s \<and> 1000 < time - lastModeTime s \<and>
            lastOnMode_ok s \<longrightarrow>
          (\<exists>s'. loop_modeChange time nb s = Some s' \<and> mode s' = lastOnMode s)) \<and>
         (mode s = MODE_LOW \<and> 50 < time - btnTime s \<and> time - lastModeTime s \<le> 2000 \<longrightarrow>
          (\<exists>s'. loop_modeChange time nb s = Some s' \<and> mode s' = MODE_MED)) \<and>
         (mode s = MODE_MED \<and> 50 < time - btnTime s \<and> time - lastModeTime s \<le> 2000 \<longrightarrow>
          (\<exists>s'. loop_modeChange time nb s = Some s' \<and> mode s' = MODE_HIGH)) \<and>
         (mode s = MODE_HIGH \<and> 50 < time - btnTime s \<longrightarrow>
          (\<exists>s'. loop_modeChange time nb s = Some s' \<and> mode s' = MODE_OFF)) \<and>
         ((mode s = MODE_LOW \<or> mode s = MODE_MED) \<and> 50 < time - btnTime s \<and>
            2000 < time - lastModeTime s \<longrightarrow>
          (\<exists>s'. loop_modeChange time nb s = Some s' \<and> mode s' = MODE_OFF))"
proof (intro conjI impI; elim conjE)
  assume h: "mode s = MODE_OFF" "20 < time - btnTime s" "1000 < time - lastModeTime s"
    "lastOnMode_ok s"
  have "loop_newMode time nb s = (lastOnMode s, s\<lparr>lastModeTime := time\<rparr>)"
    using assms h by (simp add: loop_newMode_def)
  from loop_modeChange_to [OF this] h
  show "\<exists>s'. loop_modeChange time nb s = Some s' \<and> mode s' = lastOnMode s"
    by (auto simp add: lastOnMode_ok_def)
next
  assume h: "mode s = MODE_LOW" "50 < time - btnTime s" "time - lastModeTime s \<le> 2000"
  have "loop_newMode time nb s = (MODE_MED, s)"
    using assms h by (simp add: loop_newMode_def scast_buttonTimeout)
  from loop_modeChange_to [OF this] h
  show "\<exists>s'. loop_modeChange time nb s = Some s' \<and> mode s' = MODE_MED"
    by simp
next
  assume h: "mode s = MODE_MED" "50 < time - btnTime s" "time - lastModeTime s \<le> 2000"
  have "loop_newMode time nb s = (MODE_HIGH, s)"
    using assms h by (simp add: loop_newMode_def scast_buttonTimeout)
  from loop_modeChange_to [OF this] h
  show "\<exists>s'. loop_modeChange time nb s = Some s' \<and> mode s' = MODE_HIGH"
    by simp
next
  assume h: "mode s = MODE_HIGH" "50 < time - btnTime s"
  have "loop_newMode time nb s = (MODE_OFF, s)"
    using assms h by (simp add: loop_newMode_def)
  from loop_modeChange_to [OF this] h
  show "\<exists>s'. loop_modeChange time nb s = Some s' \<and> mode s' = MODE_OFF"
    by simp
next
  assume h: "mode s = MODE_LOW \<or> mode s = MODE_MED" "50 < time - btnTime s"
    "2000 < time - lastModeTime s"
  have "loop_newMode time nb s = (MODE_OFF, s)"
    using assms h by (auto simp add: loop_newMode_def scast_buttonTimeout)
  from loop_modeChange_to [OF this] h
  show "\<exists>s'. loop_modeChange time nb s = Some s' \<and> mode s' = MODE_OFF"
    by auto
qed

subsection \<open>The same for \<^verbatim>\<open>part_000\<close>\<close>

lemma setLight_000_OFF:
  "setLight_000 MODE_OFF s =
     Some (resetAccelTimeout
       ((digitalWrite DPIN_DRV_EN LOW (digitalWrite DPIN_DRV_MODE LOW
          (digitalWrite DPIN_PWR LOW (pinMode DPIN_PWR OUTPUT s))))\<lparr>mode := MODE_OFF\<rparr>))"
  by (subst setLight_000.simps) (simp add: Let_def)

lemma setLight_000_LOW:
  "setLight_000 MODE_LOW s =
     Some (resetAccelTimeout
       ((analogWrite DPIN_DRV_EN 64 (digitalWrite DPIN_DRV_MODE LOW
          (digitalWrite DPIN_PWR HIGH (pinMode DPIN_PWR OUTPUT s))))\<lparr>mode := MODE_LOW\<rparr>))"
  by (subst setLight_000.simps) (simp add: Let_def)

lemma setLight_000_MED:
  "setLight_000 MODE_MED s =
     Some (resetAccelTimeout
       ((analogWrite DPIN_DRV_EN 255 (digitalWrite DPIN_DRV_MODE LOW
          (digitalWrite DPIN_PWR HIGH (pinMode DPIN_PWR OUTPUT s))))\<lparr>mode := MODE_MED\<rparr>))"
  by (subst setLight_000.simps) (simp add: Let_def)

lemma setLight_000_HIGH:
  "setLight_000 MODE_HIGH s =
     Some (resetAccelTimeout
       ((analogWrite DPIN_DRV_EN 255 (digitalWrite DPIN_DRV_MODE HIGH
          (digitalWrite DPIN_PWR HIGH (pinMode DPIN_PWR OUTPUT s))))\<lparr>mode := MODE_HIGH\<rparr>))"
  by (subst setLight_000.simps) (simp add: Let_def)

lemma setLight_000_BLINKING:
  assumes "lastOnMode_ok s" and "lm = MODE_BLINKING \<or> lm = MODE_BLINKING_PREVIEW"
  shows "setLight_000 lm s =
     Some (resetAccelTimeout
       ((analogWrite DPIN_DRV_EN (if lastOnMode s = MODE_LOW then 64 else 255)
          (digitalWrite DPIN_DRV_MODE (lastOnMode s = MODE_HIGH)
            (digitalWrite DPIN_PWR HIGH (pinMode DPIN_PWR OUTPUT s))))
          \<lparr>mode := MODE_BLINKING\<rparr>))"
proof -
  have inner: "setLight_000 (lastOnMode s) s =
     Some (resetAccelTimeout
       ((analogWrite DPIN_DRV_EN (if lastOnMode s = MODE_LOW then 64 else 255)
          (digitalWrite DPIN_DRV_MODE (lastOnMode s = MODE_HIGH)
            (digitalWrite DPIN_PWR HIGH (pinMode DPIN_PWR OUTPUT s))))
          \<lparr>mode := lastOnMode s\<rparr>))"
    using assms(1) unfolding lastOnMode_ok_def
    by (elim disjE)
       (simp_all add: setLight_000_LOW setLight_000_MED setLight_000_HIGH)
  have "setLight_000 lm s =
     do { s \<leftarrow> setLight_000 (lastOnMode s) s;
       let s = s\<lparr>mode := lm\<rparr>;
       let s = (if mode s = MODE_BLINKING_PREVIEW then s\<lparr>mode := MODE_BLINKING\<rparr> else s);
       Some (resetAccelTimeout s)
     }"
    using assms(2) by (subst setLight_000.simps) auto
  then show ?thesis
    using assms(2) by (auto simp add: inner hw_defs)
qed

lemma setLight_000_result:
  assumes "lastOnMode_ok s \<or> (lm \<noteq> MODE_BLINKING \<and> lm \<noteq> MODE_BLINKING_PREVIEW)"
  shows "\<exists>s'. setLight_000 lm s = Some s' \<and>
           mode s' = (if lm = MODE_BLINKING_PREVIEW then MODE_BLINKING else lm) \<and>
           lastOnMode s' = lastOnMode s \<and>
           noAccelShutoffTime s' = clock s + scast noAccelShutoffMilliseconds \<and>
           clock s' = clock s \<and> eeprom s' = eeprom s \<and> eepromWrites s' = eepromWrites s \<and>
           btnDown s' = btnDown s \<and> btnTime s' = btnTime s \<and>
           lastModeTime s' = lastModeTime s \<and> oneSecondLoopTime s' = oneSecondLoopTime s"
proof -
  consider "lm = 0" | "lm = 1" | "lm = 2" | "lm = 3"
    | "lm = 4 \<or> lm = 5" "lastOnMode_ok s"
    | "lm \<noteq> 0" "lm \<noteq> 1" "lm \<noteq> 2" "lm \<noteq> 3" "lm \<noteq> 4" "lm \<noteq> 5"
    using assms by blast
  then show ?thesis
  proof cases
    case 1 then show ?thesis by (simp add: setLight_000_OFF hw_defs eepromWrites_def)
  next
    case 2 then show ?thesis by (simp add: setLight_000_LOW hw_defs eepromWrites_def)
  next
    case 3 then show ?thesis by (simp add: setLight_000_MED hw_defs eepromWrites_def)
  next
    case 4 then show ?thesis by (simp add: setLight_000_HIGH hw_defs eepromWrites_def)
  next
    case 5 then show ?thesis
      by (auto simp add: setLight_000_BLINKING hw_defs eepromWrites_def)
  next
    case 6 then show ?thesis
      by (subst setLight_000.simps) (simp add: hw_defs eepromWrites_def)
  qed
qed

lemma loop_transition_000_mode:
  assumes "lastOnMode_ok s \<or> (newMode \<noteq> MODE_BLINKING \<and> newMode \<noteq> MODE_BLINKING_PREVIEW)"
    and "newMode \<noteq> mode s"
    and "newMode = 0 \<or> newMode = 1 \<or> newMode = 2 \<or> newMode = 3 \<or> newMode = 4 \<or> newMode = 5"
  shows "\<exists>s'. loop_transition_000 time newMode s = Some s' \<and>
           mode s' = (if newMode = MODE_BLINKING_PREVIEW then MODE_BLINKING else newMode)"
proof (cases "newMode = 4 \<or> newMode = 5")
  case True
  then have ok: "lastOnMode_ok (s\<lparr>lastModeTime := time\<rparr>)"
    using assms(1) by (auto simp add: lastOnMode_ok_def)
  show ?thesis
    using assms(2) True setLight_000_result [OF disjI1 [OF ok], where lm = 4]
    by (auto simp add: loop_transition_000_def setLightBlinking_000_def Let_def)
next
  case False
  obtain s1 where s1: "setLight_000 newMode (s\<lparr>lastModeTime := time\<rparr>) = Some s1"
    "mode s1 = newMode"
    using False setLight_000_result [where lm = newMode and s = "s\<lparr>lastModeTime := time\<rparr>"]
    by auto
  show ?thesis
    using assms(2,3) False s1
    by (auto simp add: loop_transition_000_def setLightOff_000_def setLightLow_000_def
        setLightMed_000_def setLightHigh_000_def Let_def)
qed

lemma loop_modeChange_000_to:
  assumes "loop_newMode_000 time nb s = (m, s1)"
    and "lastOnMode_ok s1 \<or> (m \<noteq> MODE_BLINKING \<and> m \<noteq> MODE_BLINKING_PREVIEW)"
    and "m \<noteq> mode s1"
    and "m = 0 \<or> m = 1 \<or> m = 2 \<or> m = 3 \<or> m = 4 \<or> m = 5"
  shows "\<exists>s'. loop_modeChange_000 time nb s = Some s' \<and>
           mode s' = (if m = MODE_BLINKING_PREVIEW then MODE_BLINKING else m)"
proof -
  obtain s2 where "loop_transition_000 time m s1 = Some s2"
    and "mode s2 = (if m = MODE_BLINKING_PREVIEW then MODE_BLINKING else m)"
    using loop_transition_000_mode [OF assms(2,3,4)] by blast
  then show ?thesis
    using assms(1) by (simp add: loop_modeChange_000_def mode_loop_button)
qed

lemma loop_modeChange_000_stay:
  assumes "loop_newMode_000 time nb s = (mode s, s)"
  shows "\<exists>s'. loop_modeChange_000 time nb s = Some s' \<and> mode s' = mode s"
  using assms by (simp add: loop_modeChange_000_def loop_transition_000_def mode_loop_button)

lemma cycle_000:
  assumes "btnDown s" and "\<not> nb"
  shows "(mode s = MODE_OFF \<and> 20 < time - btnTime s \<and> 1000 < time - lastModeTime s \<and>
            lastOnMode_ok s \<longrightarrow>
          (\<exists>s'. loop_modeChange_000 time nb s = Some s' \<and> mode s' = lastOnMode s)) \<and>
         (mode s = MODE_LOW \<and> 50 < time - btnTime s \<and> time - lastModeTime s \<le> 2000 \<longrightarrow>
          (\<exists>s'. loop_modeChange_000 time nb s = Some s' \<and> mode s' = MODE_MED)) \<and>
         (mode s = MODE_MED \<and> 50 < time - btnTime s \<and> time - lastModeTime s \<le> 2000 \<longrightarrow>
          (\<exists>s'. loop_modeChange_000 time nb s = Some s' \<and> mode s' = MODE_HIGH)) \<and>
         (mode s = MODE_HIGH \<and> 50 < time - btnTime s \<longrightarrow>
          (\<exists>s'. loop_modeChange_000 time nb s = Some s' \<and> mode s' = MODE_OFF)) \<and>
         ((mode s = MODE_LOW \<or> mode s = MODE_MED) \<and> 50 < time - btnTime s \<and>
            2000 < time - lastModeTime s \<longrightarrow>
          (\<exists>s'. loop_modeChange_000 time nb s = Some s' \<and> mode s' = MODE_OFF))"
proof (intro conjI impI; elim conjE)
  assume h: "mode s = MODE_OFF" "20 < time - btnTime s" "1000 < time - lastModeTime s"
    "lastOnMode_ok s"
  have "loop_newMode_000 time nb s = (lastOnMode s, s\<lparr>lastModeTime := time\<rparr>)"
    using assms h by (simp add: loop_newMode_000_def)
  from loop_modeChange_000_to [OF this] h
  show "\<exists>s'. loop_modeChange_000 time nb s = Some s' \<and> mode s' = lastOnMode s"
    by (auto simp add: lastOnMode_ok_def)
next
  assume h: "mode s = MODE_LOW" "50 < time - btnTime s" "time - lastModeTime s \<le> 2000"
  have "loop_newMode_000 time nb s = (MODE_MED, s)"
    using assms h by (simp add: loop_newMode_000_def scast_buttonTimeout)
  from loop_modeChange_000_to [OF this] h
  show "\<exists>s'. loop_modeChange_000 time nb s = Some s' \<and> mode s' = MODE_MED"
    by simp
next
  assume h: "mode s = MODE_MED" "50 < time - btnTime s" "time - lastModeTime s \<le> 2000"
  have "loop_newMode_000 time nb s = (MODE_HIGH, s)"
    using assms h by (simp add: loop_newMode_000_def scast_buttonTimeout)
  from loop_modeChange_000_to [OF this] h
  show "\<exists>s'. loop_modeChange_000 time nb s = Some s' \<and> mode s' = MODE_HIGH"
    by simp
next
  assume h: "mode s = MODE_HIGH" "50 < time - btnTime s"
  have "loop_newMode_000 time nb s = (MODE_OFF, s)"
    using assms h by (simp add: loop_newMode_000_def)
  from loop_modeChange_000_to [OF this] h
  show "\<exists>s'. loop_modeChange_000 time nb s = Some s' \<and> mode s' = MODE_OFF"
    by simp
next
  assume h: "mode s = MODE_LOW \<or> mode s = MODE_MED" "50 < time - btnTime s"
    "2000 < time - lastModeTime s"
  have "loop_newMode_000 time nb s = (MODE_OFF, s)"
    using assms h by (auto simp add: loop_newMode_000_def scast_buttonTimeout)
  from loop_modeChange_000_to [OF this] h
  show "\<exists>s'. loop_modeChange_000 time nb s = Some s' \<and> mode s' = MODE_OFF"
    by auto
qed

subsection \<open>The button-driven part of \<^verbatim>\<open>loop\<close> around the blinking mode\<close>

lemmas loop_001_defs = loop_modeChange_001_def loop_newMode_001_def loop_transition_001_def
  loop_button_def

lemma blink_setLight:
  assumes "(step = loop_modeChange \<and> exitTimeout = 2000) \<or>
           (step = loop_modeChange_000 \<and> exitTimeout = 3000)"
    and "btnDown s"
  shows "(mode s = MODE_OFF \<and> newBtnDown \<and> 500 < time - btnTime s \<and> lastOnMode_ok s \<longrightarrow>
          (\<exists>s'. step time newBtnDown s = Some s' \<and> mode s' = MODE_BLINKING)) \<and>
         (mode s = MODE_BLINKING \<and> \<not> newBtnDown \<and> time - lastModeTime s \<le> exitTimeout \<longrightarrow>
          (\<exists>s'. step time newBtnDown s = Some s' \<and> mode s' = MODE_BLINKING)) \<and>
         (mode s = MODE_BLINKING \<and> \<not> newBtnDown \<and> 50 < time - btnTime s \<and>
            exitTimeout < time - lastModeTime s \<longrightarrow>
          (\<exists>s'. step time newBtnDown s = Some s' \<and> mode s' = MODE_OFF))"
  using assms(1)
proof (elim disjE conjE)
  assume v: "step = loop_modeChange" "exitTimeout = 2000"
  show ?thesis
  proof (intro conjI impI; elim conjE)
    assume h: "mode s = MODE_OFF" "newBtnDown" "500 < time - btnTime s" "lastOnMode_ok s"
    have "loop_newMode time newBtnDown s = (MODE_BLINKING_PREVIEW, s)"
      using assms(2) h by (simp add: loop_newMode_def)
    from loop_modeChange_to [OF this] h v
    show "\<exists>s'. step time newBtnDown s = Some s' \<and> mode s' = MODE_BLINKING"
      by simp
  next
    assume h: "mode s = MODE_BLINKING" "\<not> newBtnDown" "time - lastModeTime s \<le> exitTimeout"
    then have "\<not> 2000 < time - lastModeTime s"
      using v by (simp add: not_less)
    then have "loop_newMode time newBtnDown s = (mode s, s)"
      using assms(2) h v by (simp add: loop_newMode_def)
    from loop_modeChange_stay [OF this] h v
    show "\<exists>s'. step time newBtnDown s = Some s' \<and> mode s' = MODE_BLINKING"
      by simp
  next
    assume h: "mode s = MODE_BLINKING" "\<not> newBtnDown" "50 < time - btnTime s"
      "exitTimeout < time - lastModeTime s"
    have "loop_newMode time newBtnDown s = (MODE_OFF, s)"
      using assms(2) h v by (simp add: loop_newMode_def)
    from loop_modeChange_to [OF this] h v
    show "\<exists>s'. step time newBtnDown s = Some s' \<and> mode s' = MODE_OFF"
      by simp
  qed
next
  assume v: "step = loop_modeChange_000" "exitTimeout = 3000"
  show ?thesis
  proof (intro conjI impI; elim conjE)
    assume h: "mode s = MODE_OFF" "newBtnDown" "500 < time - btnTime s" "lastOnMode_ok s"
    have "loop_newMode_000 time newBtnDown s = (MODE_BLINKING_PREVIEW, s)"
      using assms(2) h by (simp add: loop_newMode_000_def)
    from loop_modeChange_000_to [OF this] h v
    show "\<exists>s'. step time newBtnDown s = Some s' \<and> mode s' = MODE_BLINKING"
      by simp
  next
    assume h: "mode s = MODE_BLINKING" "\<not> newBtnDown" "time - lastModeTime s \<le> exitTimeout"
    then have "\<not> 3000 < time - lastModeTime s"
      using v by (simp add: not_less)
    then have "loop_newMode_000 time newBtnDown s = (mode s, s)"
      using assms(2) h v by (simp add: loop_newMode_000_def)
    from loop_modeChange_000_stay [OF this] h v
    show "\<exists>s'. step time newBtnDown s = Some s' \<and> mode s' = MODE_BLINKING"
      by simp
  next
    assume h: "mode s = MODE_BLINKING" "\<not> newBtnDown" "50 < time - btnTime s"
      "exitTimeout < time - lastModeTime s"
    have "loop_newMode_000 time newBtnDown s = (MODE_OFF, s)"
      using assms(2) h v by (simp add: loop_newMode_000_def)
    from loop_modeChange_000_to [OF this] h v
    show "\<exists>s'. step time newBtnDown s = Some s' \<and> mode s' = MODE_OFF"
      by simp
  qed
qed

lemma blink_001:
  assumes "btnDown s"
  shows "(mode s = MODE_OFF \<and> newBtnDown \<and> 500 < time - btnTime s \<longrightarrow>
          mode (loop_modeChange_001 time newBtnDown s) = MODE_BLINKING_PREVIEW) \<and>
         (mode s = MODE_BLINKING_PREVIEW \<and> \<not> newBtnDown \<longrightarrow>
          mode (loop_modeChange_001 time newBtnDown s) = MODE_BLINKING) \<and>
         (mode s = MODE_BLINKING \<and> \<not> newBtnDown \<and> 50 < time - btnTime s \<longrightarrow>
          mode (loop_modeChange_001 time newBtnDown s) = MODE_OFF)"
  using assms by (simp add: loop_001_defs hw_defs)

subsection \<open>What every operation of \<^verbatim>\<open>hexbright_jrt.ino\<close> keeps\<close>

lemma keeps_refl: "lastOnMode_ok s \<Longrightarrow> keeps s s"
  by (simp add: keeps_def)

lemma keeps_hw [simp]:
  "keeps s0 (pinMode p d s) = keeps s0 s"
  "keeps s0 (digitalWrite p v s) = keeps s0 s"
  "keeps s0 (analogWrite p w s) = keeps s0 s"
  "keeps s0 (delay ms s) = keeps s0 s"
  "keeps s0 (resetAccelTimeout s) = keeps s0 s"
  by (simp_all add: keeps_def hw_defs lastOnMode_ok_def eepromWrites_def)

lemma keeps_fields [simp]:
  "keeps s0 (s\<lparr>mode := m\<rparr>) = keeps s0 s"
  "keeps s0 (s\<lparr>btnTime := t\<rparr>) = keeps s0 s"
  "keeps s0 (s\<lparr>btnDown := b\<rparr>) = keeps s0 s"
  "keeps s0 (s\<lparr>lastModeTime := t\<rparr>) = keeps s0 s"
  "keeps s0 (s\<lparr>oneSecondLoopTime := t\<rparr>) = keeps s0 s"
  "keeps s0 (s\<lparr>lastAccelTime := t\<rparr>) = keeps s0 s"
  "keeps s0 (s\<lparr>lastAccTime := t\<rparr>) = keeps s0 s"
  "keeps s0 (s\<lparr>noAccelShutoffTime := t\<rparr>) = keeps s0 s"
  "keeps s0 (s\<lparr>poweringOffTime := t\<rparr>) = keeps s0 s"
  "keeps s0 (s\<lparr>clock := t\<rparr>) = keeps s0 s"
  by (simp_all add: keeps_def lastOnMode_ok_def eepromWrites_def)

lemma setLight_keeps:
  assumes "keeps s0 s"
  shows "\<exists>s'. setLight lm s = Some s' \<and> keeps s0 s'"
proof -
  have ok: "lastOnMode_ok s" using assms by (simp add: keeps_def)
  obtain s' where s': "setLight lm s = Some s'"
    "lastOnMode s' =
       (if lm = MODE_LOW \<or> lm = MODE_MED \<or> lm = MODE_HIGH then lm else lastOnMode s)"
    "eeprom s' = eeprom s" "eepromWrites s' = eepromWrites s"
    using setLight_result [OF disjI1 [OF ok], of lm] by blast
  have "keeps s0 s'"
    using assms s'(2,3,4) by (auto simp add: keeps_def lastOnMode_ok_def)
  then show ?thesis using s'(1) by blast
qed

lemma overheatBlink_keeps:
  "keeps s0 s \<Longrightarrow> \<exists>s'. overheatBlink i s = Some s' \<and> keeps s0 s'"
proof (induction i s rule: overheatBlink.induct)
  case (1 i s)
  show ?case
  proof (cases "i < 6")
    case False
    then show ?thesis using "1.prems" by (subst overheatBlink.simps) simp
  next
    case True
    obtain a where a: "setLightLow s = Some a" "keeps s0 a"
      using setLight_keeps [OF "1.prems", of MODE_LOW] by (auto simp add: setLightLow_def)
    have "keeps s0 (delay 100 a)" using a(2) by simp
    then obtain b where b: "setLightHigh (delay 100 a) = Some b" "keeps s0 b"
      using setLight_keeps [of s0 "delay 100 a" MODE_HIGH] by (auto simp add: setLightHigh_def)
    have "keeps s0 (delay 100 b)" using b(2) by simp
    from "1.IH" [OF True a(1) refl b(1) refl this]
    show ?thesis
      using True a(1) b(1) by (subst overheatBlink.simps) simp
  qed
qed

lemma setLightLow_events:
  "\<exists>s'. setLightLow s = Some s' \<and> trace s' = trace s @ lowEvents \<and> clock s' = clock s \<and>
     mode s' = MODE_LOW \<and> lastOnMode s' = MODE_LOW \<and> lowOutput s' \<and>
     noAccelShutoffTime s' = clock s + scast noAccelShutoffMilliseconds"
  by (simp add: setLightLow_def setLight_LOW hw_defs lowEvents_def lowOutput_def)

lemma setLightHigh_events:
  "\<exists>s'. setLightHigh s = Some s' \<and> trace s' = trace s @ highEvents \<and> clock s' = clock s"
  by (simp add: setLightHigh_def setLight_HIGH hw_defs highEvents_def)

lemma overheatBlink_events:
  "i \<le> 6 \<Longrightarrow>
   \<exists>s'. overheatBlink i s = Some s' \<and>
     trace s' =
       trace s @ concat (replicate (6 - i) (lowEvents @ [Delay 100] @ highEvents @ [Delay 100])) \<and>
     clock s' = clock s + 200 * of_nat (6 - i)"
proof (induction i s rule: overheatBlink.induct)
  case (1 i s)
  show ?case
  proof (cases "i < 6")
    case False
    then show ?thesis by (subst overheatBlink.simps) simp
  next
    case True
    obtain a where a: "setLightLow s = Some a" "trace a = trace s @ lowEvents"
      "clock a = clock s"
      using setLightLow_events [of s] by blast
    obtain b where b: "setLightHigh (delay 100 a) = Some b"
      "trace b = trace (delay 100 a) @ highEvents" "clock b = clock (delay 100 a)"
      using setLightHigh_events [of "delay 100 a"] by blast
    from True have le: "i + 1 \<le> 6" by simp
    obtain s' where s': "overheatBlink (i + 1) (delay 100 b) = Some s'"
      "trace s' = trace (delay 100 b) @
         concat (replicate (6 - (i + 1)) (lowEvents @ [Delay 100] @ highEvents @ [Delay 100]))"
      "clock s' = clock (delay 100 b) + 200 * of_nat (6 - (i + 1))"
      using "1.IH" [OF True a(1) refl b(1) refl le] by blast
    have rep: "6 - i = Suc (6 - (i + 1))" using True by simp
    have "overheatBlink i s = Some s'"
      using True a(1) b(1) s'(1) by (subst overheatBlink.simps) simp
    moreover have "trace s' =
       trace s @ concat (replicate (6 - i) (lowEvents @ [Delay 100] @ highEvents @ [Delay 100]))"
      unfolding rep using s'(2) a(2) b(2) by (simp add: delay_def)
    moreover have "clock s' = clock s + 200 * of_nat (6 - i)"
      unfolding rep using s'(3) a(3) b(3) by (simp add: delay_def)
    ultimately show ?thesis by blast
  qed
qed

lemma checkTemperature_overheat:
  assumes "temperature > OVERTEMP" and "mode s \<noteq> MODE_OFF"
  shows "\<exists>s'. checkTemperature temperature s = Some s' \<and>
           trace s' = trace s @ overheatEvents \<and> clock s' = clock s + 1200 \<and>
           mode s' = MODE_LOW \<and> lastOnMode s' = MODE_LOW \<and> lowOutput s' \<and>
           noAccelShutoffTime s' = clock s + 1200 + scast noAccelShutoffMilliseconds"
proof -
  obtain a where a: "overheatBlink 0 s = Some a"
    "trace a = trace s @ concat (replicate 6 (lowEvents @ [Delay 100] @ highEvents @ [Delay 100]))"
    "clock a = clock s + 1200"
    using overheatBlink_events [of 0 s] by auto
  obtain s' where s': "setLightLow a = Some s'" "trace s' = trace a @ lowEvents"
    "clock s' = clock a" "mode s' = MODE_LOW" "lastOnMode s' = MODE_LOW" "lowOutput s'"
    "noAccelShutoffTime s' = clock a + scast noAccelShutoffMilliseconds"
    using setLightLow_events [of a] by blast
  have "checkTemperature temperature s = Some s'"
    using assms a(1) s'(1) by (simp add: checkTemperature_def)
  then show ?thesis
    using a(2,3) s'(2-) by (simp add: overheatEvents_def)
qed

lemma checkTemperature_idle:
  assumes "\<not> (temperature > OVERTEMP \<and> mode s \<noteq> MODE_OFF)"
  shows "checkTemperature temperature s = Some s"
  using assms by (auto simp add: checkTemperature_def)

lemma checkTemperature_keeps:
  assumes "keeps s0 s"
  shows "\<exists>s'. checkTemperature temperature s = Some s' \<and> keeps s0 s'"
proof (cases "temperature > OVERTEMP \<and> mode s \<noteq> MODE_OFF")
  case False
  then show ?thesis using assms by (simp add: checkTemperature_idle)
next
  case True
  obtain a where a: "overheatBlink 0 s = Some a" "keeps s0 a"
    using overheatBlink_keeps [OF assms] by blast
  obtain s' where "setLightLow a = Some s'" "keeps s0 s'"
    using setLight_keeps [OF a(2), of MODE_LOW] by (auto simp add: setLightLow_def)
  then show ?thesis
    using True a(1) by (simp add: checkTemperature_def)
qed

lemma checkAccel_keeps [simp]: "keeps s0 (checkAccel inp s) = keeps s0 s"
  by (simp add: checkAccel_def Let_def millis_def)

lemma checkChargeState_keeps [simp]: "keeps s0 (checkChargeState inp s) = keeps s0 s"
  by (simp add: checkChargeState_def Let_def)

lemma loop_button_keeps [simp]: "keeps s0 (loop_button time nb s) = keeps s0 s"
  by (simp add: loop_button_def)

lemma loop_newMode_keeps [simp]:
  "keeps s0 (snd (loop_newMode time nb s)) = keeps s0 s"
  by (simp add: loop_newMode_def)

lemma oneSecondLoop_keeps:
  assumes "keeps s0 s"
  shows "\<exists>s'. oneSecondLoop inp s = Some s' \<and> keeps s0 s'"
proof (cases "millis s - oneSecondLoopTime s < 1000")
  case True
  then show ?thesis using assms by (simp add: oneSecondLoop_def)
next
  case False
  have "keeps s0 (s\<lparr>oneSecondLoopTime := millis s\<rparr>)" using assms by simp
  then obtain a where a: "checkTemperature (in_temp inp) (s\<lparr>oneSecondLoopTime := millis s\<rparr>) = Some a"
    "keeps s0 a"
    using checkTemperature_keeps by blast
  define b where "b = checkAccel inp (pinMode DPIN_RLED_SW INPUT (pinMode DPIN_RLED_SW OUTPUT a))"
  have kb: "keeps s0 b" using a(2) by (simp add: b_def)
  obtain c where c: "setLightOff b = Some c" "keeps s0 c"
    using setLight_keeps [OF kb, of MODE_OFF] by (auto simp add: setLightOff_def)
  have "oneSecondLoop inp s =
          (if millis s > noAccelShutoffTime b \<and> mode b \<noteq> MODE_OFF then setLightOff b else Some b)"
    using False a(1) by (simp add: oneSecondLoop_def Let_def b_def)
  then show ?thesis using kb c by auto
qed

lemma loop_transition_keeps:
  assumes "keeps s0 s"
  shows "\<exists>s'. loop_transition time newMode s = Some s' \<and> keeps s0 s'"
proof -
  have k: "keeps s0 (s\<lparr>lastModeTime := time\<rparr>)" using assms by simp
  note r = setLight_keeps [OF k]
  show ?thesis
    using assms r [of 0] r [of 1] r [of 2] r [of 3] r [of 4]
    by (auto simp add: loop_transition_def setLightOff_def setLightLow_def setLightMed_def
        setLightHigh_def setLightBlinking_def Let_def)
qed

lemma loop_modeChange_keeps:
  assumes "keeps s0 s"
  shows "\<exists>s'. loop_modeChange time nb s = Some s' \<and> keeps s0 s'"
proof -
  obtain m s1 where n: "loop_newMode time nb s = (m, s1)" by (cases "loop_newMode time nb s")
  have "keeps s0 s1" using loop_newMode_keeps [of s0 time nb s] assms n by simp
  then obtain s2 where "loop_transition time m s1 = Some s2" "keeps s0 s2"
    using loop_transition_keeps by blast
  then show ?thesis using n by (simp add: loop_modeChange_def)
qed

lemma loop_running_keeps:
  assumes "keeps s0 s" and "\<not> (poweringOffTime s > 0 \<and> millis s > poweringOffTime s)"
  shows "\<exists>s'. loop inp s = Some s' \<and> keeps s0 s'"
proof -
  have "keeps s0 (checkChargeState inp s)" using assms(1) by simp
  then obtain a where a: "oneSecondLoop inp (checkChargeState inp s) = Some a" "keeps s0 a"
    using oneSecondLoop_keeps by blast
  define b where "b = (if mode a = MODE_BLINKING \<or> mode a = MODE_BLINKING_PREVIEW
       then digitalWrite DPIN_DRV_EN (millis s mod 600 < 450) a else a)"
  have "keeps s0 b" using a(2) by (simp add: b_def)
  then obtain c where c: "loop_modeChange (millis s) (in_button inp) b = Some c" "keeps s0 c"
    using loop_modeChange_keeps by blast
  have "loop inp s = Some c"
    using assms(2) a(1) c(1) by (auto simp add: loop_def Let_def b_def)
  then show ?thesis using c(2) by blast
qed

lemma powerOff_ok: "lastOnMode_ok (powerOff s) = lastOnMode_ok s"
  by (simp add: powerOff_def Let_def hw_defs lastOnMode_ok_def)

lemma loop_ok:
  assumes "lastOnMode_ok s"
  shows "\<exists>s'. loop inp s = Some s' \<and> lastOnMode_ok s'"
proof (cases "poweringOffTime s > 0 \<and> millis s > poweringOffTime s")
  case True
  then show ?thesis using assms by (simp add: loop_def powerOff_ok)
next
  case False
  from loop_running_keeps [OF keeps_refl [OF assms] False]
  show ?thesis by (auto simp add: keeps_def)
qed

subsection \<open>Fields the hardware primitives leave alone, and \<^verbatim>\<open>part_000\<close> again\<close>

lemma sel_pinMode [simp]:
  "mode (pinMode p d s) = mode s"
  "lastOnMode (pinMode p d s) = lastOnMode s"
  "btnTime (pinMode p d s) = btnTime s"
  "btnDown (pinMode p d s) = btnDown s"
  "lastChargeState (pinMode p d s) = lastChargeState s"
  "lastModeTime (pinMode p d s) = lastModeTime s"
  "oneSecondLoopTime (pinMode p d s) = oneSecondLoopTime s"
  "lastAccelTime (pinMode p d s) = lastAccelTime s"
  "noAccelShutoffTime (pinMode p d s) = noAccelShutoffTime s"
  "poweringOffTime (pinMode p d s) = poweringOffTime s"
  "lastAccTime (pinMode p d s) = lastAccTime s"
  "clock (pinMode p d s) = clock s"
  "eeprom (pinMode p d s) = eeprom s"
  "pins (pinMode p d s) = pins s"
  by (simp_all add: pinMode_def Let_def millis_def)

lemma sel_digitalWrite [simp]:
  "mode (digitalWrite p v s) = mode s"
  "lastOnMode (digitalWrite p v s) = lastOnMode s"
  "btnTime (digitalWrite p v s) = btnTime s"
  "btnDown (digitalWrite p v s) = btnDown s"
  "lastChargeState (digitalWrite p v s) = lastChargeState s"
  "lastModeTime (digitalWrite p v s) = lastModeTime s"
  "oneSecondLoopTime (digitalWrite p v s) = oneSecondLoopTime s"
  "lastAccelTime (digitalWrite p v s) = lastAccelTime s"
  "noAccelShutoffTime (digitalWrite p v s) = noAccelShutoffTime s"
  "poweringOffTime (digitalWrite p v s) = poweringOffTime s"
  "lastAccTime (digitalWrite p v s) = lastAccTime s"
  "clock (digitalWrite p v s) = clock s"
  "eeprom (digitalWrite p v s) = eeprom s"
  by (simp_all add: digitalWrite_def Let_def millis_def)

lemma sel_analogWrite [simp]:
  "mode (analogWrite p w s) = mode s"
  "lastOnMode (analogWrite p w s) = lastOnMode s"
  "btnTime (analogWrite p w s) = btnTime s"
  "btnDown (analogWrite p w s) = btnDown s"
  "lastChargeState (analogWrite p w s) = lastChargeState s"
  "lastModeTime (analogWrite p w s) = lastModeTime s"
  "oneSecondLoopTime (analogWrite p w s) = oneSecondLoopTime s"
  "lastAccelTime (analogWrite p w s) = lastAccelTime s"
  "noAccelShutoffTime (analogWrite p w s) = noAccelShutoffTime s"
  "poweringOffTime (analogWrite p w s) = poweringOffTime s"
  "lastAccTime (analogWrite p w s) = lastAccTime s"
  "clock (analogWrite p w s) = clock s"
  "eeprom (analogWrite p w s) = eeprom s"
  by (simp_all add: analogWrite_def Let_def millis_def)

lemma sel_delay [simp]:
  "mode (delay ms s) = mode s"
  "lastOnMode (delay ms s) = lastOnMode s"
  "btnTime (delay ms s) = btnTime s"
  "btnDown (delay ms s) = btnDown s"
  "lastChargeState (delay ms s) = lastChargeState s"
  "lastModeTime (delay ms s) = lastModeTime s"
  "oneSecondLoopTime (delay ms s) = oneSecondLoopTime s"
  "lastAccelTime (delay ms s) = lastAccelTime s"
  "noAccelShutoffTime (delay ms s) = noAccelShutoffTime s"
  "poweringOffTime (delay ms s) = poweringOffTime s"
  "lastAccTime (delay ms s) = lastAccTime s"
  "eeprom (delay ms s) = eeprom s"
  "pins (delay ms s) = pins s"
  by (simp_all add: delay_def Let_def millis_def)

lemma sel_resetAccelTimeout [simp]:
  "mode (resetAccelTimeout s) = mode s"
  "lastOnMode (resetAccelTimeout s) = lastOnMode s"
  "btnTime (resetAccelTimeout s) = btnTime s"
  "btnDown (resetAccelTimeout s) = btnDown s"
  "lastChargeState (resetAccelTimeout s) = lastChargeState s"
  "lastModeTime (resetAccelTimeout s) = lastModeTime s"
  "oneSecondLoopTime (resetAccelTimeout s) = oneSecondLoopTime s"
  "poweringOffTime (resetAccelTimeout s) = poweringOffTime s"
  "lastAccTime (resetAccelTimeout s) = lastAccTime s"
  "clock (resetAccelTimeout s) = clock s"
  "eeprom (resetAccelTimeout s) = eeprom s"
  "pins (resetAccelTimeout s) = pins s"
  "trace (resetAccelTimeout s) = trace s"
  by (simp_all add: resetAccelTimeout_def Let_def millis_def)

lemma byte_steady_range:
  fixes x :: byte
  assumes "x \<noteq> 0" and "\<not> 3 < x"
  shows "x = 1 \<or> x = 2 \<or> x = 3"
proof -
  have "unat x \<noteq> 0" using assms(1) by (simp add: unat_eq_0)
  moreover have "\<not> 3 < unat x" using assms(2) by (simp add: word_less_nat_alt)
  ultimately have "unat x = 1 \<or> unat x = 2 \<or> unat x = 3" by arith
  then show ?thesis by (simp add: word_unat_eq_iff)
qed

lemma setup_jrt_lastOnMode_raw:
  "lastOnMode (setup_jrt inp s) =
     (if eeprom s < MODE_LOW \<or> eeprom s > MODE_HIGH then MODE_MED else eeprom s)"
  by (simp add: setup_jrt_def Let_def)

lemma setup_jrt_lastOnMode:
  "lastOnMode (setup_jrt inp s) =
     (if eeprom s = MODE_LOW \<or> eeprom s = MODE_MED \<or> eeprom s = MODE_HIGH
      then eeprom s else MODE_MED)"
  unfolding setup_jrt_lastOnMode_raw
  using byte_steady_range [of "eeprom s"] by auto

lemma setLight_keeps_000:
  assumes "keeps s0 s"
  shows "\<exists>s'. setLight_000 lm s = Some s' \<and> keeps s0 s'"
proof -
  have ok: "lastOnMode_ok s" using assms by (simp add: keeps_def)
  obtain s' where s': "setLight_000 lm s = Some s'"
    "lastOnMode s' = lastOnMode s"
    "eeprom s' = eeprom s" "eepromWrites s' = eepromWrites s"
    using setLight_000_result [OF disjI1 [OF ok], of lm] by blast
  have "keeps s0 s'"
    using assms s'(2,3,4) by (auto simp add: keeps_def lastOnMode_ok_def)
  then show ?thesis using s'(1) by blast
qed

lemma overheatBlink_keeps_000:
  "keeps s0 s \<Longrightarrow> \<exists>s'. overheatBlink_000 i s = Some s' \<and> keeps s0 s'"
proof (induction i s rule: overheatBlink_000.induct)
  case (1 i s)
  show ?case
  proof (cases "i < 6")
    case False
    then show ?thesis using "1.prems" by (subst overheatBlink_000.simps) simp
  next
    case True
    obtain a where a: "setLightLow_000 s = Some a" "keeps s0 a"
      using setLight_keeps_000 [OF "1.prems", of MODE_LOW] by (auto simp add: setLightLow_000_def)
    have "keeps s0 (delay 100 a)" using a(2) by simp
    then obtain b where b: "setLightHigh_000 (delay 100 a) = Some b" "keeps s0 b"
      using setLight_keeps_000 [of s0 "delay 100 a" MODE_HIGH] by (auto simp add: setLightHigh_000_def)
    have "keeps s0 (delay 100 b)" using b(2) by simp
    from "1.IH" [OF True a(1) refl b(1) refl this]
    show ?thesis
      using True a(1) b(1) by (subst overheatBlink_000.simps) simp
  qed
qed

lemma setLightLow_events_000:
  "\<exists>s'. setLightLow_000 s = Some s' \<and> trace s' = trace s @ lowEvents \<and> clock s' = clock s \<and>
     mode s' = MODE_LOW \<and> lowOutput s' \<and>
     noAccelShutoffTime s' = clock s + scast noAccelShutoffMilliseconds"
  by (simp add: setLightLow_000_def setLight_000_LOW hw_defs lowEvents_def lowOutput_def)

lemma setLightHigh_events_000:
  "\<exists>s'. setLightHigh_000 s = Some s' \<and> trace s' = trace s @ highEvents \<and> clock s' = clock s"
  by (simp add: setLightHigh_000_def setLight_000_HIGH hw_defs highEvents_def)

lemma overheatBlink_events_000:
  "i \<le> 6 \<Longrightarrow>
   \<exists>s'. overheatBlink_000 i s = Some s' \<and>
     trace s' =
       trace s @ concat (replicate (6 - i) (lowEvents @ [Delay 100] @ highEvents @ [Delay 100])) \<and>
     clock s' = clock s + 200 * of_nat (6 - i)"
proof (induction i s rule: overheatBlink_000.induct)
  case (1 i s)
  show ?case
  proof (cases "i < 6")
    case False
    then show ?thesis by (subst overheatBlink_000.simps) simp
  next
    case True
    obtain a where a: "setLightLow_000 s = Some a" "trace a = trace s @ lowEvents"
      "clock a = clock s"
      using setLightLow_events_000 [of s] by blast
    obtain b where b: "setLightHigh_000 (delay 100 a) = Some b"
      "trace b = trace (delay 100 a) @ highEvents" "clock b = clock (delay 100 a)"
      using setLightHigh_events_000 [of "delay 100 a"] by blast
    from True have le: "i + 1 \<le> 6" by simp
    obtain s' where s': "overheatBlink_000 (i + 1) (delay 100 b) = Some s'"
      "trace s' = trace (delay 100 b) @
         concat (replicate (6 - (i + 1)) (lowEvents @ [Delay 100] @ highEvents @ [Delay 100]))"
      "clock s' = clock (delay 100 b) + 200 * of_nat (6 - (i + 1))"
      using "1.IH" [OF True a(1) refl b(1) refl le] by blast
    have rep: "6 - i = Suc (6 - (i + 1))" using True by simp
    have "overheatBlink_000 i s = Some s'"
      using True a(1) b(1) s'(1) by (subst overheatBlink_000.simps) simp
    moreover have "trace s' =
       trace s @ concat (replicate (6 - i) (lowEvents @ [Delay 100] @ highEvents @ [Delay 100]))"
      unfolding rep using s'(2) a(2) b(2) by (simp add: delay_def)
    moreover have "clock s' = clock s + 200 * of_nat (6 - i)"
      unfolding rep using s'(3) a(3) b(3) by (simp add: delay_def)
    ultimately show ?thesis by blast
  qed
qed

lemma checkTemperature_overheat_000:
  assumes "temperature > OVERTEMP" and "mode s \<noteq> MODE_OFF"
  shows "\<exists>s'. checkTemperature_000 temperature s = Some s' \<and>
           trace s' = trace s @ overheatEvents \<and> clock s' = clock s + 1200 \<and>
           mode s' = MODE_LOW \<and> lowOutput s' \<and>
           noAccelShutoffTime s' = clock s + 1200 + scast noAccelShutoffMilliseconds"
proof -
  obtain a where a: "overheatBlink_000 0 s = Some a"
    "trace a = trace s @ concat (replicate 6 (lowEvents @ [Delay 100] @ highEvents @ [Delay 100]))"
    "clock a = clock s + 1200"
    using overheatBlink_events_000 [of 0 s] by auto
  obtain s' where s': "setLightLow_000 a = Some s'" "trace s' = trace a @ lowEvents"
    "clock s' = clock a" "mode s' = MODE_LOW" "lowOutput s'"
    "noAccelShutoffTime s' = clock a + scast noAccelShutoffMilliseconds"
    using setLightLow_events_000 [of a] by blast
  have "checkTemperature_000 temperature s = Some s'"
    using assms a(1) s'(1) by (simp add: checkTemperature_000_def)
  then show ?thesis
    using a(2,3) s'(2-) by (simp add: overheatEvents_def)
qed

lemma checkTemperature_idle_000:
  assumes "\<not> (temperature > OVERTEMP \<and> mode s \<noteq> MODE_OFF)"
  shows "checkTemperature_000 temperature s = Some s"
  using assms by (auto simp add: checkTemperature_000_def)

lemma checkTemperature_keeps_000:
  assumes "keeps s0 s"
  shows "\<exists>s'. checkTemperature_000 temperature s = Some s' \<and> keeps s0 s'"
proof (cases "temperature > OVERTEMP \<and> mode s \<noteq> MODE_OFF")
  case False
  then show ?thesis using assms by (simp add: checkTemperature_idle_000)
next
  case True
  obtain a where a: "overheatBlink_000 0 s = Some a" "keeps s0 a"
    using overheatBlink_keeps_000 [OF assms] by blast
  obtain s' where "setLightLow_000 a = Some s'" "keeps s0 s'"
    using setLight_keeps_000 [OF a(2), of MODE_LOW] by (auto simp add: setLightLow_000_def)
  then show ?thesis
    using True a(1) by (simp add: checkTemperature_000_def)
qed

lemma loop_newMode_keeps_000 [simp]:
  "keeps s0 (snd (loop_newMode_000 time nb s)) = keeps s0 s"
  by (simp add: loop_newMode_000_def)

lemma oneSecondLoop_keeps_000:
  assumes "keeps s0 s"
  shows "\<exists>s'. oneSecondLoop_000 inp s = Some s' \<and> keeps s0 s'"
proof (cases "millis s - oneSecondLoopTime s < 1000")
  case True
  then show ?thesis using assms by (simp add: oneSecondLoop_000_def)
next
  case False
  have "keeps s0 (s\<lparr>oneSecondLoopTime := millis s\<rparr>)" using assms by simp
  then obtain a where a: "checkTemperature_000 (in_temp inp) (s\<lparr>oneSecondLoopTime := millis s\<rparr>) = Some a"
    "keeps s0 a"
    using checkTemperature_keeps_000 by blast
  define b where "b = checkAccel inp (pinMode DPIN_RLED_SW INPUT (pinMode DPIN_RLED_SW OUTPUT a))"
  have kb: "keeps s0 b" using a(2) by (simp add: b_def)
  obtain c where c: "setLightOff_000 b = Some c" "keeps s0 c"
    using setLight_keeps_000 [OF kb, of MODE_OFF] by (auto simp add: setLightOff_000_def)
  have "oneSecondLoop_000 inp s =
          (if millis s > noAccelShutoffTime b \<and> mode b \<noteq> MODE_OFF then setLightOff_000 b else Some b)"
    using False a(1) by (simp add: oneSecondLoop_000_def Let_def b_def)
  then show ?thesis using kb c by auto
qed

lemma loop_transition_keeps_000:
  assumes "keeps s0 s"
  shows "\<exists>s'. loop_transition_000 time newMode s = Some s' \<and> keeps s0 s'"
proof -
  have k: "keeps s0 (s\<lparr>lastModeTime := time\<rparr>)" using assms by simp
  have up: "keeps s0 (a\<lparr>lastOnMode := m\<rparr>)" if "keeps s0 a" and "m = 1 \<or> m = 2 \<or> m = 3" for a m
    using that by (auto simp add: keeps_def lastOnMode_ok_def eepromWrites_def)
  note r = setLight_keeps_000 [OF k]
  show ?thesis
    using assms r [of 0] r [of 1] r [of 2] r [of 3] r [of 4] up
    by (auto simp add: loop_transition_000_def setLightOff_000_def setLightLow_000_def
        setLightMed_000_def setLightHigh_000_def setLightBlinking_000_def Let_def)
qed

lemma loop_modeChange_keeps_000:
  assumes "keeps s0 s"
  shows "\<exists>s'. loop_modeChange_000 time nb s = Some s' \<and> keeps s0 s'"
proof -
  obtain m s1 where n: "loop_newMode_000 time nb s = (m, s1)" by (cases "loop_newMode_000 time nb s")
  have "keeps s0 s1" using loop_newMode_keeps_000 [of s0 time nb s] assms n by simp
  then obtain s2 where "loop_transition_000 time m s1 = Some s2" "keeps s0 s2"
    using loop_transition_keeps_000 by blast
  then show ?thesis using n by (simp add: loop_modeChange_000_def)
qed

lemma loop_000_keeps:
  assumes "keeps s0 s"
  shows "\<exists>s'. loop_000 inp s = Some s' \<and> keeps s0 s'"
proof -
  have "keeps s0 (checkChargeState inp s)" using assms(1) by simp
  then obtain a where a: "oneSecondLoop_000 inp (checkChargeState inp s) = Some a" "keeps s0 a"
    using oneSecondLoop_keeps_000 by blast
  define b where "b = (if mode a = MODE_BLINKING \<or> mode a = MODE_BLINKING_PREVIEW
       then digitalWrite DPIN_DRV_EN (millis s mod 600 < 450) a else a)"
  have "keeps s0 b" using a(2) by (simp add: b_def)
  then obtain c where c: "loop_modeChange_000 (millis s) (in_button inp) b = Some c" "keeps s0 c"
    using loop_modeChange_keeps_000 by blast
  have "loop_000 inp s = Some c"
    using a(1) c(1) by (auto simp add: loop_000_def Let_def b_def)
  then show ?thesis using c(2) by blast
qed

subsection \<open>The overtemperature loop of \<^verbatim>\<open>part_001\<close>\<close>

lemma overheatBlink_001_result:
  "i \<le> 6 \<Longrightarrow>
   trace (overheatBlink_001 i s) =
     trace s @ concat (replicate (6 - i)
       [DigitalWrite DPIN_DRV_MODE LOW, Delay 100, DigitalWrite DPIN_DRV_MODE HIGH, Delay 100]) \<and>
   clock (overheatBlink_001 i s) = clock s + 200 * of_nat (6 - i) \<and>
   lastOnMode (overheatBlink_001 i s) = lastOnMode s \<and>
   pins (overheatBlink_001 i s) DPIN_DRV_EN = pins s DPIN_DRV_EN"
proof (induction i s rule: overheatBlink_001.induct)
  case (1 i s)
  show ?case
  proof (cases "i < 6")
    case False
    then have "overheatBlink_001 i s = s"
      by (subst overheatBlink_001.simps) simp
    then show ?thesis using False by simp
  next
    case True
    define s4 where "s4 = delay 100 (digitalWrite DPIN_DRV_MODE HIGH
        (delay 100 (digitalWrite DPIN_DRV_MODE LOW s)))"
    have step: "overheatBlink_001 i s = overheatBlink_001 (i + 1) s4"
      using True by (subst overheatBlink_001.simps) (simp add: Let_def s4_def)
    from True have le: "i + 1 \<le> 6" by simp
    have rep: "6 - i = Suc (6 - (i + 1))" using True by simp
    have ih: "trace (overheatBlink_001 (i + 1) s4) =
        trace s4 @ concat (replicate (6 - (i + 1))
          [DigitalWrite DPIN_DRV_MODE LOW, Delay 100, DigitalWrite DPIN_DRV_MODE HIGH, Delay 100]) \<and>
      clock (overheatBlink_001 (i + 1) s4) = clock s4 + 200 * of_nat (6 - (i + 1)) \<and>
      lastOnMode (overheatBlink_001 (i + 1) s4) = lastOnMode s4 \<and>
      pins (overheatBlink_001 (i + 1) s4) DPIN_DRV_EN = pins s4 DPIN_DRV_EN"
      using "1.IH" [OF True refl refl refl refl le] by (simp add: s4_def)
    show ?thesis
      unfolding step rep using ih by (simp add: s4_def hw_defs)
  qed
qed

lemma oneSecondLoop_001_overheat:
  assumes "1000 < millis s - oneSecondLoopTime s"
    and "in_temp inp > OVERTEMP" and "mode s \<noteq> MODE_OFF"
  shows "trace (oneSecondLoop_001 inp s) =
           trace s @ overheatEvents_001 @
             [PinMode DPIN_RLED_SW OUTPUT, PinMode DPIN_RLED_SW INPUT] \<and>
         clock (oneSecondLoop_001 inp s) = clock s + 1200 \<and>
         mode (oneSecondLoop_001 inp s) = MODE_LOW \<and>
         pins (oneSecondLoop_001 inp s) DPIN_DRV_MODE = Digital LOW \<and>
         pins (oneSecondLoop_001 inp s) DPIN_DRV_EN = pins s DPIN_DRV_EN"
  using assms overheatBlink_001_result [of 0 "s\<lparr>oneSecondLoopTime := millis s\<rparr>"]
  by (simp add: oneSecondLoop_001_def Let_def overheatEvents_001_def hw_defs)

lemma oneSecondLoop_001_lastOnMode:
  "lastOnMode (oneSecondLoop_001 inp s) = lastOnMode s"
  using overheatBlink_001_result [of 0 "s\<lparr>oneSecondLoopTime := millis s\<rparr>"]
  by (simp add: oneSecondLoop_001_def Let_def)

lemma loop_001_ok:
  assumes "lastOnMode_ok s"
  shows "lastOnMode_ok (loop_001 inp s)"
proof -
  define a where "a = oneSecondLoop_001 inp (checkChargeState inp s)"
  have "lastOnMode a = lastOnMode s"
    by (simp add: a_def oneSecondLoop_001_lastOnMode checkChargeState_def Let_def)
  then have ok: "lastOnMode_ok a" using assms by (simp add: lastOnMode_ok_def)
  define b where "b = (let c = checkAccel_001 inp a in
      if mode c = MODE_BLINKING \<or> mode c = MODE_BLINKING_PREVIEW
      then digitalWrite DPIN_DRV_EN (millis s mod 600 < 450) c else c)"
  have okb: "lastOnMode_ok b"
    using ok by (simp add: b_def checkAccel_001_def Let_def lastOnMode_ok_def)
  have "lastOnMode_ok (loop_modeChange_001 t nb b)" for t nb
    using okb
    by (auto simp add: loop_modeChange_001_def loop_newMode_001_def loop_transition_001_def
        loop_button_def Let_def lastOnMode_ok_def)
  then show ?thesis
    by (simp add: loop_001_def Let_def a_def b_def)
qed

subsection \<open>Power-on and power-off\<close>

lemma setup_000_ok:
  "\<exists>s'. setup_000 inp (power_on_000 t) = Some s' \<and> lastOnMode_ok s'"
proof -
  define a where "a = digitalWrite DPIN_ACC_INT HIGH (digitalWrite DPIN_DRV_EN LOW
     (digitalWrite DPIN_DRV_MODE LOW (pinMode DPIN_PGOOD INPUT (pinMode DPIN_ACC_INT INPUT
     (pinMode DPIN_DRV_EN OUTPUT (pinMode DPIN_DRV_MODE OUTPUT (pinMode DPIN_GLED OUTPUT
     (pinMode DPIN_RLED_SW INPUT (digitalWrite DPIN_PWR LOW (pinMode DPIN_PWR INPUT
     (power_on_000 t)))))))))))"
  have "lastOnMode_ok (power_on_000 t)"
    by (simp add: power_on_000_def power_on_def defaultMode_def lastOnMode_ok_def)
  then have "keeps (power_on_000 t) a"
    by (simp add: a_def keeps_refl)
  then obtain b where b: "setLightOff_000 a = Some b" "keeps (power_on_000 t) b"
    using setLight_keeps_000 [of "power_on_000 t" a MODE_OFF]
    by (auto simp add: setLightOff_000_def)
  have "setup_000 inp (power_on_000 t) =
      Some (resetAccelTimeout (b\<lparr>btnTime := millis b, btnDown := in_button inp\<rparr>))"
    using b(1) by (simp add: setup_000_def Let_def a_def)
  moreover have "keeps (power_on_000 t)
      (resetAccelTimeout (b\<lparr>btnTime := millis b, btnDown := in_button inp\<rparr>))"
    using b(2) by simp
  ultimately show ?thesis by (simp add: keeps_def)
qed

lemma powerOff_eeprom:
  "eeprom (powerOff s) = lastOnMode s \<and>
   eepromWrites (powerOff s) =
     eepromWrites s @
       (if eeprom s \<noteq> lastOnMode s then [EepromWrite EEPROM_LAST_ON_MODE (lastOnMode s)]
        else [])"
  by (simp add: powerOff_def Let_def eepromWrites_def hw_defs)

lemma eepromWrites_hw [simp]:
  "eepromWrites (pinMode p d s) = eepromWrites s"
  "eepromWrites (digitalWrite p v s) = eepromWrites s"
  "eepromWrites (analogWrite p w s) = eepromWrites s"
  "eepromWrites (delay ms s) = eepromWrites s"
  "eepromWrites (resetAccelTimeout s) = eepromWrites s"
  by (simp_all add: eepromWrites_def hw_defs)

lemma eepromWrites_fields [simp]:
  "eepromWrites (s\<lparr>mode := m\<rparr>) = eepromWrites s"
  "eepromWrites (s\<lparr>lastOnMode := m\<rparr>) = eepromWrites s"
  "eepromWrites (s\<lparr>btnTime := t\<rparr>) = eepromWrites s"
  "eepromWrites (s\<lparr>btnDown := b\<rparr>) = eepromWrites s"
  "eepromWrites (s\<lparr>lastChargeState := c\<rparr>) = eepromWrites s"
  "eepromWrites (s\<lparr>lastModeTime := t\<rparr>) = eepromWrites s"
  "eepromWrites (s\<lparr>oneSecondLoopTime := t\<rparr>) = eepromWrites s"
  "eepromWrites (s\<lparr>lastAccelTime := t\<rparr>) = eepromWrites s"
  "eepromWrites (s\<lparr>noAccelShutoffTime := t\<rparr>) = eepromWrites s"
  by (simp_all add: eepromWrites_def)

lemma setup_jrt_eeprom:
  "eeprom (setup_jrt inp s) = eeprom s \<and> eepromWrites (setup_jrt inp s) = eepromWrites s"
  by (simp add: setup_jrt_def Let_def)

subsection \<open>The motion deadline\<close>

lemma checkAccel_frame [simp]:
  "mode (checkAccel inp s) = mode s" "clock (checkAccel inp s) = clock s"
  by (simp_all add: checkAccel_def Let_def)

lemma checkAccel_event:
  assumes "\<not> in_accInt inp" and "in_tilt inp AND 0x20 \<noteq> 0 \<or> in_tilt inp AND 0x80 \<noteq> 0"
  shows "noAccelShutoffTime (checkAccel inp s) = millis s + scast noAccelShutoffMilliseconds"
  using assms by (auto simp add: checkAccel_def Let_def hw_defs)

lemma byte_mode_range:
  fixes x :: byte
  assumes "x \<le> 5"
  shows "x = 0 \<or> x = 1 \<or> x = 2 \<or> x = 3 \<or> x = 4 \<or> x = 5"
proof -
  have "unat x \<le> 5" using assms by (simp add: word_le_nat_alt)
  then have "unat x = 0 \<or> unat x = 1 \<or> unat x = 2 \<or> unat x = 3 \<or> unat x = 4 \<or> unat x = 5"
    by arith
  then show ?thesis by (simp add: word_unat_eq_iff)
qed

lemma loop_transition_deadline:
  assumes "lastOnMode_ok s" and "newMode \<noteq> mode s" and "newMode \<le> MODE_BLINKING_PREVIEW"
  shows "\<exists>s'. loop_transition time newMode s = Some s' \<and>
           noAccelShutoffTime s' = millis s + scast noAccelShutoffMilliseconds"
proof -
  have ok: "lastOnMode_ok (s\<lparr>lastModeTime := time\<rparr>)" using assms(1) by simp
  obtain s' where s': "setLight (if newMode = 5 then 4 else newMode) (s\<lparr>lastModeTime := time\<rparr>) = Some s'"
    "noAccelShutoffTime s' = clock s + scast noAccelShutoffMilliseconds"
    using setLight_result [OF disjI1 [OF ok], where lm = "if newMode = 5 then 4 else newMode"]
    by auto
  have "loop_transition time newMode s = Some s'"
    using assms(2) byte_mode_range [OF assms(3)] s'(1)
    by (auto simp add: loop_transition_def setLightOff_def setLightLow_def setLightMed_def
        setLightHigh_def setLightBlinking_def Let_def)
  then show ?thesis using s'(2) by (simp add: millis_def)
qed

lemma no_wrap_le:
  fixes x :: ulong
  assumes "unat x + d + unat w < 2 ^ 32" and "unat k \<le> d"
  shows "\<not> (x + k + w < x)"
proof -
  have "unat x + unat k < 2 ^ 32" using assms by simp
  then have a: "unat (x + k) = unat x + unat k"
    using unat_add_lem [of x k] by simp
  have "unat (x + k) + unat w < 2 ^ 32" using assms a by simp
  then have "unat (x + k + w) = unat (x + k) + unat w"
    using unat_add_lem [of "x + k" w] by simp
  then show ?thesis using a by (simp add: word_less_nat_alt)
qed

lemma oneSecondLoop_event:
  assumes gate: "\<not> millis s - oneSecondLoopTime s < 1000"
    and ev: "\<not> in_accInt inp" "in_tilt inp AND 0x20 \<noteq> 0 \<or> in_tilt inp AND 0x80 \<noteq> 0"
    and nw: "unat (millis s) + 1200 + unat (scast noAccelShutoffMilliseconds :: ulong) < 2 ^ 32"
  shows "\<exists>s'. oneSecondLoop inp s = Some s' \<and>
           mode s' = (if in_temp inp > OVERTEMP \<and> mode s \<noteq> MODE_OFF then MODE_LOW else mode s)"
proof -
  let ?s1 = "s\<lparr>oneSecondLoopTime := millis s\<rparr>"
  have "\<exists>a k. checkTemperature (in_temp inp) ?s1 = Some a \<and> clock a = clock s + k \<and> unat k \<le> 1200 \<and>
      mode a = (if in_temp inp > OVERTEMP \<and> mode s \<noteq> MODE_OFF then MODE_LOW else mode s)"
  proof (cases "in_temp inp > OVERTEMP \<and> mode s \<noteq> MODE_OFF")
    case True
    then have "in_temp inp > OVERTEMP" "mode ?s1 \<noteq> MODE_OFF" by simp_all
    from checkTemperature_overheat [OF this]
    obtain a where "checkTemperature (in_temp inp) ?s1 = Some a" "clock a = clock s + 1200"
      "mode a = MODE_LOW"
      by auto
    then have "checkTemperature (in_temp inp) ?s1 = Some a \<and> clock a = clock s + 1200 \<and>
      unat (1200::ulong) \<le> 1200 \<and>
      mode a = (if in_temp inp > OVERTEMP \<and> mode s \<noteq> MODE_OFF then MODE_LOW else mode s)"
      using True by simp
    then show ?thesis by blast
  next
    case False
    then have "checkTemperature (in_temp inp) ?s1 = Some ?s1 \<and> clock ?s1 = clock s + 0 \<and>
      unat (0::ulong) \<le> 1200 \<and>
      mode ?s1 = (if in_temp inp > OVERTEMP \<and> mode s \<noteq> MODE_OFF then MODE_LOW else mode s)"
      by (simp add: checkTemperature_idle)
    then show ?thesis by blast
  qed
  then obtain a k where a: "checkTemperature (in_temp inp) ?s1 = Some a"
    "clock a = clock s + k" "unat k \<le> 1200"
    "mode a = (if in_temp inp > OVERTEMP \<and> mode s \<noteq> MODE_OFF then MODE_LOW else mode s)"
    by blast
  define b where "b = checkAccel inp (pinMode DPIN_RLED_SW INPUT (pinMode DPIN_RLED_SW OUTPUT a))"
  have d: "noAccelShutoffTime b = clock s + k + scast noAccelShutoffMilliseconds"
    using checkAccel_event [OF ev, of "pinMode DPIN_RLED_SW INPUT (pinMode DPIN_RLED_SW OUTPUT a)"]
      a(2) by (simp add: b_def millis_def)
  have "\<not> (noAccelShutoffTime b < millis s)"
    unfolding d millis_def using no_wrap_le [OF nw [unfolded millis_def] a(3)] .
  then have "oneSecondLoop inp s = Some b"
    using gate a(1) by (simp add: oneSecondLoop_def Let_def b_def)
  moreover have "mode b = mode a" by (simp add: b_def)
  ultimately show ?thesis using a(4) by simp
qed

lemma checkAccel_quiet:
  assumes "in_accInt inp \<or> (in_tilt inp AND 0x20 = 0 \<and> in_tilt inp AND 0x80 = 0)"
  shows "checkAccel inp s = s"
  using assms by (auto simp add: checkAccel_def Let_def)

lemma oneSecondLoop_quiet:
  assumes gate: "\<not> millis s - oneSecondLoopTime s < 1000"
    and cool: "\<not> (in_temp inp > OVERTEMP \<and> mode s \<noteq> MODE_OFF)"
    and quiet: "in_accInt inp \<or> (in_tilt inp AND 0x20 = 0 \<and> in_tilt inp AND 0x80 = 0)"
  shows "\<exists>s'. oneSecondLoop inp s = Some s' \<and>
           mode s' =
             (if noAccelShutoffTime s < millis s \<and> mode s \<noteq> MODE_OFF then MODE_OFF
              else mode s)"
proof -
  let ?a = "s\<lparr>oneSecondLoopTime := millis s\<rparr>"
  let ?b = "pinMode DPIN_RLED_SW INPUT (pinMode DPIN_RLED_SW OUTPUT ?a)"
  have ct: "checkTemperature (in_temp inp) ?a = Some ?a"
    using cool by (simp add: checkTemperature_idle)
  have run: "oneSecondLoop inp s =
      (if noAccelShutoffTime s < millis s \<and> mode s \<noteq> MODE_OFF then setLightOff ?b else Some ?b)"
    using gate ct by (simp add: oneSecondLoop_def Let_def checkAccel_quiet [OF quiet])
  show ?thesis
  proof (cases "noAccelShutoffTime s < millis s \<and> mode s \<noteq> MODE_OFF")
    case True
    then show ?thesis
      using run setLight_result [where lm = MODE_OFF and s = ?b]
      by (auto simp add: setLightOff_def)
  next
    case False
    then show ?thesis using run by auto
  qed
qed

section \<open>The brightness cycle\<close>

text \<open>
  Claim C1. A release edge is \<open>btnDown s\<close> with the sampled level \<open>newBtnDown\<close> low;
  the button was held for \<open>time - btnTime s\<close> and the dwell since the last mode
  transition is \<open>time - lastModeTime s\<close>, both computed as the code does, in 32-bit
  arithmetic. \<open>step\<close> is the button-driven part of \<^verbatim>\<open>loop\<close> in \<^verbatim>\<open>hexbright_jrt.ino\<close> or in
  \<^verbatim>\<open>part_000\<close>. In both revisions:
  \<^item> from Off, a release held for more than 20 ms, more than 1000 ms after the last
    mode transition, leads to \<open>lastOnMode\<close> (which is Low, Medium or High);
  \<^item> from Low, a release held for more than 50 ms with a dwell of at most 2000 ms leads
    to Medium, and from Medium to High;
  \<^item> from High, every release held for more than 50 ms leads to Off;
  \<^item> from Low or Medium, a release held for more than 50 ms with a dwell of more than
    2000 ms leads to Off.
\<close>

theorem brightness_cycle:
  assumes "step = loop_modeChange \<or> step = loop_modeChange_000"
    and "btnDown s" and "\<not> newBtnDown"
  shows "(mode s = MODE_OFF \<and> 20 < time - btnTime s \<and> 1000 < time - lastModeTime s \<and>
            lastOnMode_ok s \<longrightarrow>
          (\<exists>s'. step time newBtnDown s = Some s' \<and> mode s' = lastOnMode s)) \<and>
         (mode s = MODE_LOW \<and> 50 < time - btnTime s \<and> time - lastModeTime s \<le> 2000 \<longrightarrow>
          (\<exists>s'. step time newBtnDown s = Some s' \<and> mode s' = MODE_MED)) \<and>
         (mode s = MODE_MED \<and> 50 < time - btnTime s \<and> time - lastModeTime s \<le> 2000 \<longrightarrow>
          (\<exists>s'. step time newBtnDown s = Some s' \<and> mode s' = MODE_HIGH)) \<and>
         (mode s = MODE_HIGH \<and> 50 < time - btnTime s \<longrightarrow>
          (\<exists>s'. step time newBtnDown s = Some s' \<and> mode s' = MODE_OFF)) \<and>
         ((mode s = MODE_LOW \<or> mode s = MODE_MED) \<and> 50 < time - btnTime s \<and>
            2000 < time - lastModeTime s \<longrightarrow>
          (\<exists>s'. step time newBtnDown s = Some s' \<and> mode s' = MODE_OFF))"
  using assms(1)
proof
  assume "step = loop_modeChange"
  then show ?thesis using cycle_jrt [OF assms(2,3)] by simp
next
  assume "step = loop_modeChange_000"
  then show ?thesis using cycle_000 [OF assms(2,3)] by simp
qed

theorem brightness_cycle_witness:
  "map_option mode (loop_modeChange 5100 False
      ((power_on 0 3)\<lparr>mode := MODE_OFF, lastOnMode := MODE_HIGH, btnDown := True,
          btnTime := 5000, lastModeTime := 1000\<rparr>)) = Some MODE_HIGH \<and>
   map_option mode (loop_modeChange 5100 False
      ((power_on 0 3)\<lparr>mode := MODE_LOW, lastOnMode := MODE_LOW, btnDown := True,
          btnTime := 5000, lastModeTime := 4000\<rparr>)) = Some MODE_MED \<and>
   map_option mode (loop_modeChange_000 5100 False
      ((power_on 0 3)\<lparr>mode := MODE_MED, lastOnMode := MODE_MED, btnDown := True,
          btnTime := 5000, lastModeTime := 4000\<rparr>)) = Some MODE_HIGH \<and>
   map_option mode (loop_modeChange_000 5100 False
      ((power_on 0 3)\<lparr>mode := MODE_HIGH, lastOnMode := MODE_HIGH, btnDown := True,
          btnTime := 5000, lastModeTime := 4000\<rparr>)) = Some MODE_OFF \<and>
   map_option mode (loop_modeChange 5100 False
      ((power_on 0 3)\<lparr>mode := MODE_MED, lastOnMode := MODE_MED, btnDown := True,
          btnTime := 5000, lastModeTime := 1000\<rparr>)) = Some MODE_OFF"
  using
    brightness_cycle [of loop_modeChange "(power_on 0 3)\<lparr>mode := MODE_OFF,
      lastOnMode := MODE_HIGH, btnDown := True, btnTime := 5000, lastModeTime := 1000\<rparr>"
      False 5100]
    brightness_cycle [of loop_modeChange "(power_on 0 3)\<lparr>mode := MODE_LOW,
      lastOnMode := MODE_LOW, btnDown := True, btnTime := 5000, lastModeTime := 4000\<rparr>"
      False 5100]
    brightness_cycle [of loop_modeChange_000 "(power_on 0 3)\<lparr>mode := MODE_MED,
      lastOnMode := MODE_MED, btnDown := True, btnTime := 5000, lastModeTime := 4000\<rparr>"
      False 5100]
    brightness_cycle [of loop_modeChange_000 "(power_on 0 3)\<lparr>mode := MODE_HIGH,
      lastOnMode := MODE_HIGH, btnDown := True, btnTime := 5000, lastModeTime := 4000\<rparr>"
      False 5100]
    brightness_cycle [of loop_modeChange "(power_on 0 3)\<lparr>mode := MODE_MED,
      lastOnMode := MODE_MED, btnDown := True, btnTime := 5000, lastModeTime := 1000\<rparr>"
      False 5100]
  by (simp add: power_on_def lastOnMode_ok_def)

section \<open>The quick double press\<close>

text \<open>
  Claim C2 says that from Off a release within the double-tap window of the last mode
  transition always leads to Low. Two of the revisions do otherwise. In
  \<^verbatim>\<open>hexbright_jrt.ino\<close> the test reads \<^verbatim>\<open>lastModeTime == 0 || time - lastModeTime > 1000\<close>:
  while \<^verbatim>\<open>lastModeTime\<close> is still 0 a release 500 ms after power-on restores
  \<open>lastOnMode\<close> (here High). In \<^verbatim>\<open>part_001\<close>, which has no low level in its cycle, a
  release 500 ms after a mode transition leads to Medium.
\<close>

theorem double_press_counterexample:
  "mode ((power_on 0 3)\<lparr>lastOnMode := MODE_HIGH, btnDown := True, btnTime := 400\<rparr>) = MODE_OFF \<and>
   (20::ulong) < 500 - 400 \<and> (500::ulong) - 0 \<le> 1000 \<and>
   map_option mode (loop_modeChange 500 False
      ((power_on 0 3)\<lparr>lastOnMode := MODE_HIGH, btnDown := True, btnTime := 400\<rparr>))
     = Some MODE_HIGH \<and>
   mode (loop_modeChange_001 1500 False
      ((power_on_001 0)\<lparr>lastOnMode := MODE_HIGH, btnDown := True, btnTime := 1400,
          lastModeTime := 1000\<rparr>)) = MODE_MED"
  by code_simp

text \<open>
  Claim C2 as the code has it: from Off, with a release held for more than 20 ms,
  \<^item> \<^verbatim>\<open>hexbright_jrt.ino\<close> goes to Low if \<^verbatim>\<open>lastModeTime\<close> is not 0 and at most 1000 ms
    have passed since;
  \<^item> \<^verbatim>\<open>part_000\<close> goes to Low if at most 1000 ms have passed since \<^verbatim>\<open>lastModeTime\<close>;
  \<^item> \<^verbatim>\<open>part_001\<close> goes to Medium if at most 2500 ms have passed since \<^verbatim>\<open>lastModeTime\<close>;
  in each case whatever \<open>lastOnMode\<close> is.
\<close>

theorem double_press:
  assumes "mode s = MODE_OFF" and "btnDown s" and "\<not> newBtnDown"
    and "20 < time - btnTime s"
  shows "(lastModeTime s \<noteq> 0 \<and> time - lastModeTime s \<le> 1000 \<longrightarrow>
          (\<exists>s'. loop_modeChange time newBtnDown s = Some s' \<and> mode s' = MODE_LOW)) \<and>
         (time - lastModeTime s \<le> 1000 \<longrightarrow>
          (\<exists>s'. loop_modeChange_000 time newBtnDown s = Some s' \<and> mode s' = MODE_LOW)) \<and>
         (time - lastModeTime s \<le> 2500 \<longrightarrow>
          mode (loop_modeChange_001 time newBtnDown s) = MODE_MED)"
proof (intro conjI impI; (elim conjE)?)
  assume h: "lastModeTime s \<noteq> 0" "time - lastModeTime s \<le> 1000"
  then have "\<not> 1000 < time - lastModeTime s"
    by (simp add: not_less)
  then have "loop_newMode time newBtnDown s = (MODE_LOW, s)"
    using assms h by (simp add: loop_newMode_def)
  from loop_modeChange_to [OF this] assms(1)
  show "\<exists>s'. loop_modeChange time newBtnDown s = Some s' \<and> mode s' = MODE_LOW"
    by simp
next
  assume h: "time - lastModeTime s \<le> 1000"
  then have "\<not> 1000 < time - lastModeTime s"
    by (simp add: not_less)
  then have "loop_newMode_000 time newBtnDown s = (MODE_LOW, s)"
    using assms h by (simp add: loop_newMode_000_def)
  from loop_modeChange_000_to [OF this] assms(1)
  show "\<exists>s'. loop_modeChange_000 time newBtnDown s = Some s' \<and> mode s' = MODE_LOW"
    by simp
next
  assume h: "time - lastModeTime s \<le> 2500"
  then have "\<not> 2500 < time - lastModeTime s"
    by (simp add: not_less)
  then show "mode (loop_modeChange_001 time newBtnDown s) = MODE_MED"
    using assms by (simp add: loop_001_defs hw_defs)
qed

theorem double_press_witness:
  "map_option mode (loop_modeChange 5100 False
      ((power_on 0 3)\<lparr>lastOnMode := MODE_HIGH, btnDown := True, btnTime := 5000,
          lastModeTime := 4500\<rparr>)) = Some MODE_LOW \<and>
   map_option mode (loop_modeChange_000 5100 False
      ((power_on 0 3)\<lparr>lastOnMode := MODE_HIGH, btnDown := True, btnTime := 5000,
          lastModeTime := 4500\<rparr>)) = Some MODE_LOW \<and>
   mode (loop_modeChange_001 5100 False
      ((power_on 0 3)\<lparr>lastOnMode := MODE_HIGH, btnDown := True, btnTime := 5000,
          lastModeTime := 4500\<rparr>)) = MODE_MED"
  using double_press [of "(power_on 0 3)\<lparr>lastOnMode := MODE_HIGH, btnDown := True,
      btnTime := 5000, lastModeTime := 4500\<rparr>" False 5100]
  by (simp add: power_on_def)

section \<open>Entering and leaving the blinking mode\<close>

text \<open>
  Claim C3 says that holding the button from Off for more than 500 ms puts the machine
  in BlinkingPreview and that releasing it then gives Blinking. In \<^verbatim>\<open>hexbright_jrt.ino\<close>
  the hold leads to \<^verbatim>\<open>MODE_BLINKING\<close> at once, since \<^verbatim>\<open>setLight\<close> replaces the preview mode;
  and when the button, held since time 0, is released at 3000 ms, more than 2000 ms
  after the blinking began at 501 ms, the light goes off.
\<close>

theorem blink_counterexample:
  "map_option mode (loop_modeChange 501 True
      ((power_on 0 3)\<lparr>lastOnMode := MODE_HIGH, btnDown := True, btnTime := 0\<rparr>))
     = Some MODE_BLINKING \<and>
   map_option mode (Option.bind (loop_modeChange 501 True
      ((power_on 0 3)\<lparr>lastOnMode := MODE_HIGH, btnDown := True, btnTime := 0\<rparr>))
      (loop_modeChange 3000 False)) = Some MODE_OFF"
  by code_simp

text \<open>
  Claim C3 as the code has it. \<open>step\<close> is the button-driven part of \<^verbatim>\<open>loop\<close> in
  \<^verbatim>\<open>hexbright_jrt.ino\<close> (exit timeout 2000 ms) or in \<^verbatim>\<open>part_000\<close> (3000 ms). With the button
  tracked as down:
  \<^item> from Off, holding it for more than 500 ms leads to Blinking, not to the preview
    mode (\<open>lastOnMode\<close> being Low, Medium or High);
  \<^item> in Blinking, a release at most the exit timeout after the mode was entered leaves
    the mode Blinking, however long the button was held;
  \<^item> in Blinking, a release held for more than 50 ms, later than the exit timeout after
    the mode was entered, leads to Off.

  In \<^verbatim>\<open>part_001\<close> the hold leads to BlinkingPreview, every release in BlinkingPreview
  leads to Blinking, and in Blinking every release held for more than 50 ms leads to
  Off: there is no exit timeout.
\<close>

theorem blink_entry_exit:
  assumes "(step = loop_modeChange \<and> exitTimeout = 2000) \<or>
           (step = loop_modeChange_000 \<and> exitTimeout = 3000)"
    and "btnDown s"
  shows "(mode s = MODE_OFF \<and> newBtnDown \<and> 500 < time - btnTime s \<and> lastOnMode_ok s \<longrightarrow>
          (\<exists>s'. step time newBtnDown s = Some s' \<and> mode s' = MODE_BLINKING)) \<and>
         (mode s = MODE_BLINKING \<and> \<not> newBtnDown \<and> time - lastModeTime s \<le> exitTimeout \<longrightarrow>
          (\<exists>s'. step time newBtnDown s = Some s' \<and> mode s' = MODE_BLINKING)) \<and>
         (mode s = MODE_BLINKING \<and> \<not> newBtnDown \<and> 50 < time - btnTime s \<and>
            exitTimeout < time - lastModeTime s \<longrightarrow>
          (\<exists>s'. step time newBtnDown s = Some s' \<and> mode s' = MODE_OFF)) \<and>
         (mode s = MODE_OFF \<and> newBtnDown \<and> 500 < time - btnTime s \<longrightarrow>
          mode (loop_modeChange_001 time newBtnDown s) = MODE_BLINKING_PREVIEW) \<and>
         (mode s = MODE_BLINKING_PREVIEW \<and> \<not> newBtnDown \<longrightarrow>
          mode (loop_modeChange_001 time newBtnDown s) = MODE_BLINKING) \<and>
         (mode s = MODE_BLINKING \<and> \<not> newBtnDown \<and> 50 < time - btnTime s \<longrightarrow>
          mode (loop_modeChange_001 time newBtnDown s) = MODE_OFF)"
  using blink_setLight [OF assms, of newBtnDown time] blink_001 [OF assms(2), of newBtnDown time]
  by blast

theorem blink_entry_exit_witness:
  "map_option mode (loop_modeChange 501 True
      ((power_on 0 3)\<lparr>lastOnMode := MODE_HIGH, btnDown := True\<rparr>)) = Some MODE_BLINKING \<and>
   map_option mode (loop_modeChange 1000 False
      ((power_on 0 3)\<lparr>mode := MODE_BLINKING, lastOnMode := MODE_HIGH, btnDown := True,
         lastModeTime := 501\<rparr>)) = Some MODE_BLINKING \<and>
   map_option mode (loop_modeChange_000 9000 False
      ((power_on 0 3)\<lparr>mode := MODE_BLINKING, lastOnMode := MODE_HIGH, btnDown := True,
         btnTime := 8000, lastModeTime := 501\<rparr>)) = Some MODE_OFF \<and>
   mode (loop_modeChange_001 501 True
      ((power_on 0 3)\<lparr>lastOnMode := MODE_HIGH, btnDown := True\<rparr>)) = MODE_BLINKING_PREVIEW \<and>
   mode (loop_modeChange_001 600 False
      ((power_on 0 3)\<lparr>mode := MODE_BLINKING_PREVIEW, lastOnMode := MODE_HIGH,
         btnDown := True\<rparr>)) = MODE_BLINKING \<and>
   mode (loop_modeChange_001 9000 False
      ((power_on 0 3)\<lparr>mode := MODE_BLINKING, lastOnMode := MODE_HIGH, btnDown := True,
         btnTime := 8000, lastModeTime := 501\<rparr>)) = MODE_OFF"
  using
    blink_entry_exit [of loop_modeChange 2000
      "(power_on 0 3)\<lparr>lastOnMode := MODE_HIGH, btnDown := True\<rparr>" True 501]
    blink_entry_exit [of loop_modeChange 2000
      "(power_on 0 3)\<lparr>mode := MODE_BLINKING, lastOnMode := MODE_HIGH, btnDown := True,
         lastModeTime := 501\<rparr>" False 1000]
    blink_entry_exit [of loop_modeChange_000 3000
      "(power_on 0 3)\<lparr>mode := MODE_BLINKING, lastOnMode := MODE_HIGH, btnDown := True,
         btnTime := 8000, lastModeTime := 501\<rparr>" False 9000]
    blink_entry_exit [of loop_modeChange 2000
      "(power_on 0 3)\<lparr>mode := MODE_BLINKING_PREVIEW, lastOnMode := MODE_HIGH,
         btnDown := True\<rparr>" False 600]
  by (simp add: power_on_def lastOnMode_ok_def)

section \<open>The motion auto-shutoff\<close>

text \<open>
  Claim C4 says that the once-per-second check forces the mode to Off when the time is
  past the motion deadline and the mode is not Off, that every tap, shake and mode
  transition resets the deadline to now plus the inactivity window, and that a tap at any
  point before the deadline therefore suppresses the shutoff. In \<^verbatim>\<open>hexbright_jrt.ino\<close> the
  deadline is the 32-bit sum \<^verbatim>\<open>time + noAccelShutoffMilliseconds\<close> and the check is the
  absolute comparison \<^verbatim>\<open>time > noAccelShutoffTime\<close>, where the other timers of the sketch
  compare a difference (\<^verbatim>\<open>time - oneSecondLoopTime\<close>, \<^verbatim>\<open>time - btnTime\<close>), which survives
  the wrap of \<^verbatim>\<open>millis()\<close>. With the light on High, the clock at 4294967294 and the
  deadline at 4294967295, one millisecond ahead, a tap read in the pass moves the
  deadline to 30526, because the sum wraps, and the check of that same pass turns the
  light off. Without the tap the same pass leaves the light on High.
\<close>

theorem motion_shutoff_at_wrap:
  "clock ((power_on 4294967294 3)\<lparr>mode := MODE_HIGH, lastOnMode := MODE_HIGH,
       noAccelShutoffTime := 4294967295\<rparr>)
     < noAccelShutoffTime ((power_on 4294967294 3)\<lparr>mode := MODE_HIGH, lastOnMode := MODE_HIGH,
       noAccelShutoffTime := 4294967295\<rparr>) \<and>
   noAccelShutoffTime (checkAccel
      \<lparr>in_button = False, in_charge = 0, in_temp = 0, in_accInt = False, in_tilt = 0x20\<rparr>
      ((power_on 4294967294 3)\<lparr>mode := MODE_HIGH, lastOnMode := MODE_HIGH,
         noAccelShutoffTime := 4294967295\<rparr>)) = 30526 \<and>
   map_option mode (oneSecondLoop
      \<lparr>in_button = False, in_charge = 0, in_temp = 0, in_accInt = False, in_tilt = 0x20\<rparr>
      ((power_on 4294967294 3)\<lparr>mode := MODE_HIGH, lastOnMode := MODE_HIGH,
         noAccelShutoffTime := 4294967295\<rparr>)) = Some MODE_OFF \<and>
   map_option mode (oneSecondLoop
      \<lparr>in_button = False, in_charge = 0, in_temp = 0, in_accInt = True, in_tilt = 0\<rparr>
      ((power_on 4294967294 3)\<lparr>mode := MODE_HIGH, lastOnMode := MODE_HIGH,
         noAccelShutoffTime := 4294967295\<rparr>)) = Some MODE_HIGH"
  by code_simp

text \<open>
  What the once-per-second pass of \<^verbatim>\<open>hexbright_jrt.ino\<close> does otherwise. \<open>a\<close> is the state
  after the temperature check and \<open>b\<close> the state after the accelerometer check.
  \<^item> When the pass runs (the gate is open): if the time of the pass is greater than the
    deadline of \<open>b\<close> and the mode of \<open>b\<close> is not Off, the pass ends with the mode Off, by
    \<^verbatim>\<open>setLightOff\<close> and not by the transition switch; if not, the pass ends in \<open>b\<close>, whose
    mode is that of \<open>a\<close>.
  \<^item> When the gate is closed the pass changes nothing.
  \<^item> A pass without overtemperature sequence that reads neither tap nor shake ends with
    the mode Off if the time is greater than the deadline and the mode is not Off, and
    with the mode unchanged if not: before the deadline the light stays as it is.
  \<^item> A tap or a shake read from the tilt register sets the deadline to now plus
    \<^verbatim>\<open>noAccelShutoffMilliseconds\<close>, in 32-bit arithmetic.
  \<^item> So does every mode transition of \<^verbatim>\<open>loop\<close> (to one of the six modes, \<open>lastOnMode\<close>
    being Low, Medium or High).
  \<^item> A pass that reads a tap or a shake does not turn the light off for lack of motion
    as long as now plus the 1200 ms of an overtemperature sequence plus the window is
    below \<open>2 ^ 32\<close>. The mode at its end is Low after an overtemperature sequence and the
    mode at its start otherwise.
\<close>

theorem motion_shutoff:
  "(\<not> millis s - oneSecondLoopTime s < 1000 \<and>
      checkTemperature (in_temp inp) (s\<lparr>oneSecondLoopTime := millis s\<rparr>) = Some a \<and>
      b = checkAccel inp (pinMode DPIN_RLED_SW INPUT (pinMode DPIN_RLED_SW OUTPUT a)) \<longrightarrow>
    (noAccelShutoffTime b < millis s \<and> mode b \<noteq> MODE_OFF \<longrightarrow>
       (\<exists>s'. oneSecondLoop inp s = Some s' \<and> mode s' = MODE_OFF)) \<and>
    (\<not> (noAccelShutoffTime b < millis s \<and> mode b \<noteq> MODE_OFF) \<longrightarrow>
       oneSecondLoop inp s = Some b \<and> mode b = mode a)) \<and>
   (millis s - oneSecondLoopTime s < 1000 \<longrightarrow> oneSecondLoop inp s = Some s) \<and>
   (\<not> millis s - oneSecondLoopTime s < 1000 \<and>
      \<not> (in_temp inp > OVERTEMP \<and> mode s \<noteq> MODE_OFF) \<and>
      (in_accInt inp \<or> (in_tilt inp AND 0x20 = 0 \<and> in_tilt inp AND 0x80 = 0)) \<longrightarrow>
    (\<exists>s'. oneSecondLoop inp s = Some s' \<and>
       mode s' =
         (if noAccelShutoffTime s < millis s \<and> mode s \<noteq> MODE_OFF then MODE_OFF
          else mode s))) \<and>
   (\<not> in_accInt inp \<and> (in_tilt inp AND 0x20 \<noteq> 0 \<or> in_tilt inp AND 0x80 \<noteq> 0) \<longrightarrow>
    noAccelShutoffTime (checkAccel inp s) = millis s + scast noAccelShutoffMilliseconds) \<and>
   (lastOnMode_ok s \<and> newMode \<noteq> mode s \<and> newMode \<le> MODE_BLINKING_PREVIEW \<longrightarrow>
    (\<exists>s'. loop_transition time newMode s = Some s' \<and>
       noAccelShutoffTime s' = millis s + scast noAccelShutoffMilliseconds)) \<and>
   (\<not> millis s - oneSecondLoopTime s < 1000 \<and>
      \<not> in_accInt inp \<and> (in_tilt inp AND 0x20 \<noteq> 0 \<or> in_tilt inp AND 0x80 \<noteq> 0) \<and>
      unat (millis s) + 1200 + unat (scast noAccelShutoffMilliseconds :: ulong) < 2 ^ 32 \<longrightarrow>
    (\<exists>s'. oneSecondLoop inp s = Some s' \<and>
       mode s' =
         (if in_temp inp > OVERTEMP \<and> mode s \<noteq> MODE_OFF then MODE_LOW else mode s)))"
proof (intro conjI impI)
  assume h: "\<not> millis s - oneSecondLoopTime s < 1000 \<and>
      checkTemperature (in_temp inp) (s\<lparr>oneSecondLoopTime := millis s\<rparr>) = Some a \<and>
      b = checkAccel inp (pinMode DPIN_RLED_SW INPUT (pinMode DPIN_RLED_SW OUTPUT a))"
  have run: "oneSecondLoop inp s =
      (if noAccelShutoffTime b < millis s \<and> mode b \<noteq> MODE_OFF then setLightOff b else Some b)"
    using h by (auto simp add: oneSecondLoop_def Let_def)
  {
    assume "noAccelShutoffTime b < millis s \<and> mode b \<noteq> MODE_OFF"
    then show "\<exists>s'. oneSecondLoop inp s = Some s' \<and> mode s' = MODE_OFF"
      using run setLight_result [where lm = MODE_OFF and s = b]
      by (auto simp add: setLightOff_def)
  }
  {
    assume "\<not> (noAccelShutoffTime b < millis s \<and> mode b \<noteq> MODE_OFF)"
    then show "oneSecondLoop inp s = Some b" using run by auto
  }
  show "mode b = mode a" using h by simp
next
  assume "millis s - oneSecondLoopTime s < 1000"
  then show "oneSecondLoop inp s = Some s" by (simp add: oneSecondLoop_def)
next
  assume "\<not> millis s - oneSecondLoopTime s < 1000 \<and>
      \<not> (in_temp inp > OVERTEMP \<and> mode s \<noteq> MODE_OFF) \<and>
      (in_accInt inp \<or> (in_tilt inp AND 0x20 = 0 \<and> in_tilt inp AND 0x80 = 0))"
  then show "\<exists>s'. oneSecondLoop inp s = Some s' \<and>
       mode s' =
         (if noAccelShutoffTime s < millis s \<and> mode s \<noteq> MODE_OFF then MODE_OFF
          else mode s)"
    using oneSecondLoop_quiet [of s inp] by blast
next
  assume "\<not> in_accInt inp \<and> (in_tilt inp AND 0x20 \<noteq> 0 \<or> in_tilt inp AND 0x80 \<noteq> 0)"
  then show "noAccelShutoffTime (checkAccel inp s) = millis s + scast noAccelShutoffMilliseconds"
    using checkAccel_event [of inp s] by blast
next
  assume "lastOnMode_ok s \<and> newMode \<noteq> mode s \<and> newMode \<le> MODE_BLINKING_PREVIEW"
  then show "\<exists>s'. loop_transition time newMode s = Some s' \<and>
       noAccelShutoffTime s' = millis s + scast noAccelShutoffMilliseconds"
    using loop_transition_deadline [of s newMode time] by blast
next
  assume "\<not> millis s - oneSecondLoopTime s < 1000 \<and>
      \<not> in_accInt inp \<and> (in_tilt inp AND 0x20 \<noteq> 0 \<or> in_tilt inp AND 0x80 \<noteq> 0) \<and>
      unat (millis s) + 1200 + unat (scast noAccelShutoffMilliseconds :: ulong) < 2 ^ 32"
  then show "\<exists>s'. oneSecondLoop inp s = Some s' \<and>
       mode s' =
         (if in_temp inp > OVERTEMP \<and> mode s \<noteq> MODE_OFF then MODE_LOW else mode s)"
    using oneSecondLoop_event [of s inp] by blast
qed

theorem motion_shutoff_witness:
  "(\<exists>s'. oneSecondLoop
       \<lparr>in_button = False, in_charge = 0, in_temp = 0, in_accInt = True, in_tilt = 0\<rparr>
       ((power_on 40000 3)\<lparr>mode := MODE_HIGH, lastOnMode := MODE_HIGH,
          noAccelShutoffTime := 30528\<rparr>) = Some s' \<and> mode s' = MODE_OFF) \<and>
   (\<exists>s'. oneSecondLoop
       \<lparr>in_button = False, in_charge = 0, in_temp = 0, in_accInt = True, in_tilt = 0\<rparr>
       ((power_on 40000 3)\<lparr>mode := MODE_HIGH, lastOnMode := MODE_HIGH,
          noAccelShutoffTime := 40000\<rparr>) = Some s' \<and> mode s' = MODE_HIGH) \<and>
   oneSecondLoop
       \<lparr>in_button = False, in_charge = 0, in_temp = 0, in_accInt = True, in_tilt = 0\<rparr>
       ((power_on 40000 3)\<lparr>mode := MODE_HIGH, lastOnMode := MODE_HIGH,
          oneSecondLoopTime := 39500, noAccelShutoffTime := 30528\<rparr>) =
     Some ((power_on 40000 3)\<lparr>mode := MODE_HIGH, lastOnMode := MODE_HIGH,
          oneSecondLoopTime := 39500, noAccelShutoffTime := 30528\<rparr>) \<and>
   noAccelShutoffTime (checkAccel
       \<lparr>in_button = False, in_charge = 0, in_temp = 0, in_accInt = False, in_tilt = 0x20\<rparr>
       ((power_on 40000 3)\<lparr>mode := MODE_HIGH, lastOnMode := MODE_HIGH,
          noAccelShutoffTime := 30528\<rparr>)) = 70528 \<and>
   (\<exists>s'. loop_transition 40000 MODE_MED
       ((power_on 40000 3)\<lparr>mode := MODE_HIGH, lastOnMode := MODE_HIGH,
          noAccelShutoffTime := 30528\<rparr>) = Some s' \<and> noAccelShutoffTime s' = 70528) \<and>
   (\<exists>s'. oneSecondLoop
       \<lparr>in_button = False, in_charge = 0, in_temp = 0, in_accInt = False, in_tilt = 0x20\<rparr>
       ((power_on 40000 3)\<lparr>mode := MODE_HIGH, lastOnMode := MODE_HIGH,
          noAccelShutoffTime := 30528\<rparr>) = Some s' \<and> mode s' = MODE_HIGH)"
proof -
  let ?s = "(power_on 40000 3)\<lparr>mode := MODE_HIGH, lastOnMode := MODE_HIGH,
          noAccelShutoffTime := 30528\<rparr>"
  let ?r = "(power_on 40000 3)\<lparr>mode := MODE_HIGH, lastOnMode := MODE_HIGH,
          noAccelShutoffTime := 40000\<rparr>"
  let ?g = "(power_on 40000 3)\<lparr>mode := MODE_HIGH, lastOnMode := MODE_HIGH,
          oneSecondLoopTime := 39500, noAccelShutoffTime := 30528\<rparr>"
  let ?quiet = "\<lparr>in_button = False, in_charge = 0, in_temp = 0, in_accInt = True, in_tilt = 0\<rparr>"
  let ?tap = "\<lparr>in_button = False, in_charge = 0, in_temp = 0, in_accInt = False,
     in_tilt = 0x20\<rparr>"
  let ?a = "?s\<lparr>oneSecondLoopTime := millis ?s\<rparr>"
  let ?b = "checkAccel ?quiet (pinMode DPIN_RLED_SW INPUT (pinMode DPIN_RLED_SW OUTPUT ?a))"
  have f: "millis ?s = 40000" "mode ?s = MODE_HIGH" "oneSecondLoopTime ?s = 0"
    by (simp_all add: power_on_def millis_def)
  have h1: "\<not> millis ?s - oneSecondLoopTime ?s < 1000 \<and>
      checkTemperature (in_temp ?quiet) ?a = Some ?a \<and> ?b = ?b"
    by (simp add: f checkTemperature_idle)
  have h1': "noAccelShutoffTime ?b < millis ?s \<and> mode ?b \<noteq> MODE_OFF"
    by (simp add: f) (simp add: checkAccel_def Let_def)
  have hq: "\<not> millis ?r - oneSecondLoopTime ?r < 1000 \<and>
      \<not> (in_temp ?quiet > OVERTEMP \<and> mode ?r \<noteq> MODE_OFF) \<and>
      (in_accInt ?quiet \<or> (in_tilt ?quiet AND 0x20 = 0 \<and> in_tilt ?quiet AND 0x80 = 0))"
    by (simp add: power_on_def millis_def)
  have fq: "\<not> noAccelShutoffTime ?r < millis ?r" "mode ?r = MODE_HIGH"
    by (simp_all add: power_on_def millis_def)
  have hg: "millis ?g - oneSecondLoopTime ?g < 1000"
    by (simp add: power_on_def millis_def)
  have h2: "\<not> in_accInt ?tap \<and> (in_tilt ?tap AND 0x20 \<noteq> 0 \<or> in_tilt ?tap AND 0x80 \<noteq> 0)"
    by simp
  have h3: "lastOnMode_ok ?s \<and> MODE_MED \<noteq> mode ?s \<and> MODE_MED \<le> MODE_BLINKING_PREVIEW"
    by (simp add: lastOnMode_ok_def)
  have h4: "\<not> millis ?s - oneSecondLoopTime ?s < 1000 \<and>
      \<not> in_accInt ?tap \<and> (in_tilt ?tap AND 0x20 \<noteq> 0 \<or> in_tilt ?tap AND 0x80 \<noteq> 0) \<and>
      unat (millis ?s) + 1200 + unat (scast noAccelShutoffMilliseconds :: ulong) < 2 ^ 32"
    by (simp add: f scast_noAccel)
  have c1: "\<exists>s'. oneSecondLoop ?quiet ?s = Some s' \<and> mode s' = MODE_OFF"
    using motion_shutoff [where s = ?s and inp = ?quiet and a = ?a and b = ?b] h1 h1' by blast
  have c1': "\<exists>s'. oneSecondLoop ?quiet ?r = Some s' \<and> mode s' = MODE_HIGH"
    using motion_shutoff [where s = ?r and inp = ?quiet] hq fq by simp
  have c1'': "oneSecondLoop ?quiet ?g = Some ?g"
    using motion_shutoff [where s = ?g and inp = ?quiet] hg by blast
  have c2: "noAccelShutoffTime (checkAccel ?tap ?s) = 70528"
    using motion_shutoff [where s = ?s and inp = ?tap] h2 by (simp add: f scast_noAccel)
  have c3: "\<exists>s'. loop_transition 40000 MODE_MED ?s = Some s' \<and> noAccelShutoffTime s' = 70528"
    using motion_shutoff [where s = ?s and newMode = MODE_MED and time = 40000] h3
    by (simp add: f scast_noAccel)
  have c4: "\<exists>s'. oneSecondLoop ?tap ?s = Some s' \<and> mode s' = MODE_HIGH"
    using motion_shutoff [where s = ?s and inp = ?tap] h4 by (simp add: f)
  from c1 c1' c1'' c2 c3 c4 show ?thesis by blast
qed

section \<open>The inactivity window\<close>

text \<open>
  Claim C5 says that every reset sets the motion deadline to now plus 1,800,000 ms. The
  initialiser \<^verbatim>\<open>30 * 60 * 1000\<close> is evaluated in 16-bit \<^verbatim>\<open>int\<close>, where it wraps to
  30528 (1,800,000 is 27 * 65536 + 30528). \<^verbatim>\<open>resetAccelTimeout\<close> therefore sets the
  deadline to now plus 30528 ms: straight after power-on, with the clock at 0, the
  deadline is 30528 and not 1800000.
\<close>

theorem inactivity_window_wraps:
  "sint noAccelShutoffMilliseconds = 30528 \<and>
   noAccelShutoffTime (resetAccelTimeout s) = clock s + 30528 \<and>
   noAccelShutoffTime (resetAccelTimeout (power_on 0 3)) = 30528 \<and>
   noAccelShutoffTime (resetAccelTimeout (power_on 0 3)) \<noteq> 1800000"
  by (simp add: hw_defs scast_noAccel power_on_def) (simp add: noAccelShutoffMilliseconds_def)

section \<open>Reading the raw axis values\<close>

text \<open>
  Claim C6 says that \<^verbatim>\<open>readAccel\<close> repeats the three-byte transaction until no byte
  carries the failed-read flag (bit 6). The code makes one request whatever the bytes
  are: the remaining bus is always the tail of the bus. With the reply 0x40, 0x01, 0x02
  the flagged byte 0x40 is handed back and the next reply is left unread. A byte with
  both flags, 0x60, is handed back without sign extension, while 0x21 becomes 0xE1.
\<close>

theorem readAccel_no_retry:
  "snd (readAccel bus acc) = tl bus \<and>
   readAccel [[0x40, 0x01, 0x02], [0x03, 0x04, 0x05]] [0, 0, 0] =
     ([0x40, 0x01, 0x02], [[0x03, 0x04, 0x05]]) \<and>
   readAccel [[0x60, 0x21, 0x02]] [0, 0, 0] = ([0x60, 0xE1, 0x02], [])"
proof (intro conjI)
  show "snd (readAccel bus acc) = tl bus"
    by (simp add: readAccel_def Let_def)
  show "readAccel [[0x40, 0x01, 0x02], [0x03, 0x04, 0x05]] [0, 0, 0] =
     ([0x40, 0x01, 0x02], [[0x03, 0x04, 0x05]])"
    by code_simp
  show "readAccel [[0x60, 0x21, 0x02]] [0, 0, 0] = ([0x60, 0xE1, 0x02], [])"
    by code_simp
qed

section \<open>\<^verbatim>\<open>lastOnMode\<close> is always a steady level\<close>

text \<open>
  Claim C7. In \<^verbatim>\<open>hexbright_jrt.ino\<close>, \<open>lastOnMode\<close> is Low, Medium or High after \<^verbatim>\<open>setup\<close>,
  whatever byte \<open>e\<close> the EEPROM holds; and from a state where it is, every \<^verbatim>\<open>setLight\<close>
  call, every mode transition, every temperature check, every once-per-second pass and
  every pass of \<^verbatim>\<open>loop\<close> returns, with \<open>lastOnMode\<close> still Low, Medium or High; so does
  \<^verbatim>\<open>powerOff\<close>. The same holds for \<^verbatim>\<open>setup\<close> and \<^verbatim>\<open>loop\<close> of \<^verbatim>\<open>part_000\<close> and of
  \<^verbatim>\<open>part_001\<close>.
\<close>

theorem lastOnMode_invariant:
  "lastOnMode_ok (setup_jrt inp (power_on t e)) \<and>
   (lastOnMode_ok s \<longrightarrow>
      (\<exists>s'. setLight lightMode s = Some s' \<and> lastOnMode_ok s') \<and>
      (\<exists>s'. loop_transition time newMode s = Some s' \<and> lastOnMode_ok s') \<and>
      (\<exists>s'. checkTemperature temperature s = Some s' \<and> lastOnMode_ok s') \<and>
      (\<exists>s'. oneSecondLoop inp s = Some s' \<and> lastOnMode_ok s') \<and>
      (\<exists>s'. loop inp s = Some s' \<and> lastOnMode_ok s') \<and>
      lastOnMode_ok (powerOff s)) \<and>
   (\<exists>s'. setup_000 inp (power_on_000 t) = Some s' \<and> lastOnMode_ok s') \<and>
   (lastOnMode_ok s \<longrightarrow> (\<exists>s'. loop_000 inp s = Some s' \<and> lastOnMode_ok s')) \<and>
   lastOnMode_ok (setup_001 inp (power_on_001 t)) \<and>
   (lastOnMode_ok s \<longrightarrow> lastOnMode_ok (loop_001 inp s))"
proof (intro conjI impI)
  show "lastOnMode_ok (setup_jrt inp (power_on t e))"
    by (simp add: lastOnMode_ok_def setup_jrt_lastOnMode)
  show "\<exists>s'. setup_000 inp (power_on_000 t) = Some s' \<and> lastOnMode_ok s'"
    by (rule setup_000_ok)
  show "lastOnMode_ok (setup_001 inp (power_on_001 t))"
    by (simp add: lastOnMode_ok_def setup_001_def power_on_001_def power_on_def Let_def)
next
  assume ok: "lastOnMode_ok s"
  note k = keeps_refl [OF ok]
  show "\<exists>s'. setLight lightMode s = Some s' \<and> lastOnMode_ok s'"
    using setLight_keeps [OF k, of lightMode] by (auto simp add: keeps_def)
  show "\<exists>s'. loop_transition time newMode s = Some s' \<and> lastOnMode_ok s'"
    using loop_transition_keeps [OF k, of time newMode] by (auto simp add: keeps_def)
  show "\<exists>s'. checkTemperature temperature s = Some s' \<and> lastOnMode_ok s'"
    using checkTemperature_keeps [OF k, of temperature] by (auto simp add: keeps_def)
  show "\<exists>s'. oneSecondLoop inp s = Some s' \<and> lastOnMode_ok s'"
    using oneSecondLoop_keeps [OF k, of inp] by (auto simp add: keeps_def)
  show "\<exists>s'. loop inp s = Some s' \<and> lastOnMode_ok s'"
    by (rule loop_ok [OF ok])
  show "lastOnMode_ok (powerOff s)"
    using ok by (simp add: powerOff_ok)
next
  assume ok: "lastOnMode_ok s"
  show "\<exists>s'. loop_000 inp s = Some s' \<and> lastOnMode_ok s'"
    using loop_000_keeps [OF keeps_refl [OF ok], of inp] by (auto simp add: keeps_def)
next
  assume ok: "lastOnMode_ok s"
  show "lastOnMode_ok (loop_001 inp s)"
    by (rule loop_001_ok [OF ok])
qed

theorem lastOnMode_invariant_witness:
  "lastOnMode_ok (setup_jrt \<lparr>in_button = False, in_charge = 0, in_temp = 0, in_accInt = True,
      in_tilt = 0\<rparr> (power_on 0 9)) \<and>
   lastOnMode_ok ((power_on 5000 9)\<lparr>mode := MODE_HIGH, lastOnMode := MODE_HIGH\<rparr>) \<and>
   lastOnMode_ok (the (loop \<lparr>in_button = True, in_charge = 0, in_temp = 400,
      in_accInt = True, in_tilt = 0\<rparr>
      ((power_on 5000 9)\<lparr>mode := MODE_HIGH, lastOnMode := MODE_HIGH\<rparr>)))"
proof -
  have ok: "lastOnMode_ok ((power_on 5000 9)\<lparr>mode := MODE_HIGH, lastOnMode := MODE_HIGH\<rparr>)"
    by (simp add: lastOnMode_ok_def)
  note inv = lastOnMode_invariant [of "\<lparr>in_button = True, in_charge = 0, in_temp = 400,
      in_accInt = True, in_tilt = 0\<rparr>" 0 9
      "(power_on 5000 9)\<lparr>mode := MODE_HIGH, lastOnMode := MODE_HIGH\<rparr>"]
  from inv ok
  have "\<exists>s'. loop \<lparr>in_button = True, in_charge = 0, in_temp = 400,
      in_accInt = True, in_tilt = 0\<rparr>
      ((power_on 5000 9)\<lparr>mode := MODE_HIGH, lastOnMode := MODE_HIGH\<rparr>) = Some s' \<and>
      lastOnMode_ok s'"
    by blast
  then have "lastOnMode_ok (the (loop \<lparr>in_button = True, in_charge = 0, in_temp = 400,
      in_accInt = True, in_tilt = 0\<rparr>
      ((power_on 5000 9)\<lparr>mode := MODE_HIGH, lastOnMode := MODE_HIGH\<rparr>)))"
    by auto
  moreover have "lastOnMode_ok (setup_jrt \<lparr>in_button = False, in_charge = 0, in_temp = 0,
      in_accInt = True, in_tilt = 0\<rparr> (power_on 0 9))"
    using lastOnMode_invariant [of "\<lparr>in_button = False, in_charge = 0, in_temp = 0,
      in_accInt = True, in_tilt = 0\<rparr>" 0 9] by blast
  ultimately show ?thesis using ok by blast
qed

section \<open>The last-on memory across a power cycle\<close>

text \<open>
  Claim C8, in \<^verbatim>\<open>hexbright_jrt.ino\<close>.
  \<^item> When the scheduled power-off is due, \<^verbatim>\<open>loop\<close> runs \<^verbatim>\<open>powerOff\<close> and nothing else; a
    boot from the EEPROM byte it leaves restores \<open>lastOnMode\<close>, be it Low, Medium or
    High (High is the case of the claim).
  \<^item> A stored byte other than Low, Medium and High boots to the default written in
    \<^verbatim>\<open>setup\<close>, which is \<^verbatim>\<open>MODE_MED\<close> (the constant \<^verbatim>\<open>defaultMode\<close> is not used there).
  \<^item> \<^verbatim>\<open>powerOff\<close> writes the byte once if it differs from \<open>lastOnMode\<close> and not at all
    if it is equal.
  \<^item> A pass of \<^verbatim>\<open>loop\<close> that is not the power-off, and \<^verbatim>\<open>setup\<close>, write nothing to the
    EEPROM and leave the byte as it is.
\<close>

theorem persistence_round_trip:
  "(0 < poweringOffTime s \<and> poweringOffTime s < millis s \<and> lastOnMode_ok s \<longrightarrow>
      loop inp s = Some (powerOff s) \<and>
      lastOnMode (setup_jrt inp' (power_on t (eeprom (powerOff s)))) = lastOnMode s) \<and>
   (e \<noteq> MODE_LOW \<and> e \<noteq> MODE_MED \<and> e \<noteq> MODE_HIGH \<longrightarrow>
      lastOnMode (setup_jrt inp' (power_on t e)) = MODE_MED) \<and>
   eepromWrites (powerOff s) =
     eepromWrites s @
       (if eeprom s \<noteq> lastOnMode s then [EepromWrite EEPROM_LAST_ON_MODE (lastOnMode s)]
        else []) \<and>
   (lastOnMode_ok s \<and> \<not> (0 < poweringOffTime s \<and> poweringOffTime s < millis s) \<longrightarrow>
      (\<exists>s'. loop inp s = Some s' \<and> eeprom s' = eeprom s \<and> eepromWrites s' = eepromWrites s)) \<and>
   eeprom (setup_jrt inp' s) = eeprom s \<and> eepromWrites (setup_jrt inp' s) = eepromWrites s"
proof (intro conjI impI)
  assume h: "0 < poweringOffTime s \<and> poweringOffTime s < millis s \<and> lastOnMode_ok s"
  then show "loop inp s = Some (powerOff s)"
    by (simp add: loop_def)
  show "lastOnMode (setup_jrt inp' (power_on t (eeprom (powerOff s)))) = lastOnMode s"
    using h by (auto simp add: setup_jrt_lastOnMode powerOff_eeprom power_on_def lastOnMode_ok_def)
next
  assume "e \<noteq> MODE_LOW \<and> e \<noteq> MODE_MED \<and> e \<noteq> MODE_HIGH"
  then show "lastOnMode (setup_jrt inp' (power_on t e)) = MODE_MED"
    by (simp add: setup_jrt_lastOnMode power_on_def)
next
  show "eepromWrites (powerOff s) =
     eepromWrites s @
       (if eeprom s \<noteq> lastOnMode s then [EepromWrite EEPROM_LAST_ON_MODE (lastOnMode s)]
        else [])"
    using powerOff_eeprom [of s] by blast
next
  assume h: "lastOnMode_ok s \<and> \<not> (0 < poweringOffTime s \<and> poweringOffTime s < millis s)"
  then have "\<not> (poweringOffTime s > 0 \<and> millis s > poweringOffTime s)" by blast
  from loop_running_keeps [OF keeps_refl this, of inp] h
  show "\<exists>s'. loop inp s = Some s' \<and> eeprom s' = eeprom s \<and> eepromWrites s' = eepromWrites s"
    by (auto simp add: keeps_def)
next
  show "eeprom (setup_jrt inp' s) = eeprom s"
    using setup_jrt_eeprom [of inp' s] by blast
  show "eepromWrites (setup_jrt inp' s) = eepromWrites s"
    using setup_jrt_eeprom [of inp' s] by blast
qed

theorem persistence_round_trip_witness:
  "loop \<lparr>in_button = False, in_charge = 0, in_temp = 0, in_accInt = True, in_tilt = 0\<rparr>
      ((power_on 7000 2)\<lparr>lastOnMode := MODE_HIGH, poweringOffTime := 6500\<rparr>) =
     Some (powerOff ((power_on 7000 2)\<lparr>lastOnMode := MODE_HIGH, poweringOffTime := 6500\<rparr>)) \<and>
   lastOnMode (setup_jrt \<lparr>in_button = False, in_charge = 0, in_temp = 0, in_accInt = True,
      in_tilt = 0\<rparr>
      (power_on 0 (eeprom (powerOff
         ((power_on 7000 2)\<lparr>lastOnMode := MODE_HIGH, poweringOffTime := 6500\<rparr>))))) = MODE_HIGH \<and>
   lastOnMode (setup_jrt \<lparr>in_button = False, in_charge = 0, in_temp = 0, in_accInt = True,
      in_tilt = 0\<rparr> (power_on 0 9)) = MODE_MED \<and>
   (\<exists>s'. loop \<lparr>in_button = False, in_charge = 0, in_temp = 0, in_accInt = True, in_tilt = 0\<rparr>
      ((power_on 7000 2)\<lparr>lastOnMode := MODE_HIGH\<rparr>) = Some s' \<and> eeprom s' = 2)"
proof -
  let ?inp = "\<lparr>in_button = False, in_charge = 0, in_temp = 0, in_accInt = True, in_tilt = 0\<rparr>"
  let ?s = "(power_on 7000 2)\<lparr>lastOnMode := MODE_HIGH, poweringOffTime := 6500\<rparr>"
  let ?r = "(power_on 7000 2)\<lparr>lastOnMode := MODE_HIGH\<rparr>"
  have hs: "0 < poweringOffTime ?s \<and> poweringOffTime ?s < millis ?s \<and> lastOnMode_ok ?s"
    by (simp add: power_on_def millis_def lastOnMode_ok_def)
  have ls: "lastOnMode ?s = MODE_HIGH"
    by simp
  have he: "(9::byte) \<noteq> MODE_LOW \<and> (9::byte) \<noteq> MODE_MED \<and> (9::byte) \<noteq> MODE_HIGH"
    by simp
  have hr: "lastOnMode_ok ?r \<and> \<not> (0 < poweringOffTime ?r \<and> poweringOffTime ?r < millis ?r)"
    by (simp add: power_on_def millis_def lastOnMode_ok_def)
  have er: "eeprom ?r = 2"
    by (simp add: power_on_def)
  from persistence_round_trip [of ?s ?inp ?inp 0 9] hs he ls
  have a: "loop ?inp ?s = Some (powerOff ?s) \<and>
      lastOnMode (setup_jrt ?inp (power_on 0 (eeprom (powerOff ?s)))) = MODE_HIGH \<and>
      lastOnMode (setup_jrt ?inp (power_on 0 9)) = MODE_MED"
    by metis
  from persistence_round_trip [of ?r ?inp ?inp 0 9] hr er
  have b: "\<exists>s'. loop ?inp ?r = Some s' \<and> eeprom s' = 2"
    by metis
  from a b show ?thesis by blast
qed

section \<open>The overtemperature response\<close>

text \<open>
  Claim C9 says that after the overtemperature sequence the output is at low brightness
  and the mode is consistent with the output. In \<^verbatim>\<open>part_001\<close> the sequence writes the
  driver-mode line only and then assigns \<^verbatim>\<open>mode = MODE_LOW\<close>. Take the light at Medium
  (driver-mode line low, enable line at duty 255) and a reading of 341: after the pass
  the mode is Low, the driver-mode line is low and the enable line is still at duty 255,
  which is the drive of Medium. The transition to Low of the same revision drives the
  enable line at duty 64.
\<close>

theorem overtemperature_part_001:
  "mode ((loop_transition_001 0 MODE_MED (power_on_001 0))\<lparr>clock := 2000\<rparr>) = MODE_MED \<and>
   pins ((loop_transition_001 0 MODE_MED (power_on_001 0))\<lparr>clock := 2000\<rparr>) DPIN_DRV_EN
     = Pwm 255 \<and>
   mode (oneSecondLoop_001
      \<lparr>in_button = False, in_charge = 0, in_temp = 341, in_accInt = True, in_tilt = 0\<rparr>
      ((loop_transition_001 0 MODE_MED (power_on_001 0))\<lparr>clock := 2000\<rparr>)) = MODE_LOW \<and>
   pins (oneSecondLoop_001
      \<lparr>in_button = False, in_charge = 0, in_temp = 341, in_accInt = True, in_tilt = 0\<rparr>
      ((loop_transition_001 0 MODE_MED (power_on_001 0))\<lparr>clock := 2000\<rparr>)) DPIN_DRV_MODE
     = Digital LOW \<and>
   pins (oneSecondLoop_001
      \<lparr>in_button = False, in_charge = 0, in_temp = 341, in_accInt = True, in_tilt = 0\<rparr>
      ((loop_transition_001 0 MODE_MED (power_on_001 0))\<lparr>clock := 2000\<rparr>)) DPIN_DRV_EN
     = Pwm 255 \<and>
   \<not> lowOutput (oneSecondLoop_001
      \<lparr>in_button = False, in_charge = 0, in_temp = 341, in_accInt = True, in_tilt = 0\<rparr>
      ((loop_transition_001 0 MODE_MED (power_on_001 0))\<lparr>clock := 2000\<rparr>)) \<and>
   mode (loop_transition_001 0 MODE_LOW (power_on_001 0)) = MODE_LOW \<and>
   lowOutput (loop_transition_001 0 MODE_LOW (power_on_001 0))"
  by code_simp

text \<open>
  In \<^verbatim>\<open>hexbright_jrt.ino\<close> and \<^verbatim>\<open>part_000\<close> the response is built from \<^verbatim>\<open>setLight\<close>. With a
  reading above 340 and the mode not Off, \<^verbatim>\<open>checkTemperature\<close> returns; what it does to
  the hardware is exactly \<open>overheatEvents\<close> (six times the writes of Low, 100 ms, the
  writes of High, 100 ms, then the writes of Low), it takes 1200 ms, and afterwards the
  mode is Low and the output is the drive of Low.
\<close>

theorem overtemperature_response:
  assumes "temperature > OVERTEMP" and "mode s \<noteq> MODE_OFF"
  shows "(\<exists>s'. checkTemperature temperature s = Some s' \<and>
            trace s' = trace s @ overheatEvents \<and> clock s' = clock s + 1200 \<and>
            mode s' = MODE_LOW \<and> lowOutput s') \<and>
         (\<exists>s'. checkTemperature_000 temperature s = Some s' \<and>
            trace s' = trace s @ overheatEvents \<and> clock s' = clock s + 1200 \<and>
            mode s' = MODE_LOW \<and> lowOutput s')"
  using checkTemperature_overheat [OF assms] checkTemperature_overheat_000 [OF assms]
  by blast

theorem overtemperature_response_witness:
  "(\<exists>s'. checkTemperature 341 ((power_on 2000 3)\<lparr>mode := MODE_HIGH\<rparr>) = Some s' \<and>
      trace s' = overheatEvents \<and> clock s' = 3200 \<and> mode s' = MODE_LOW \<and> lowOutput s') \<and>
   (\<exists>s'. checkTemperature_000 341 ((power_on 2000 3)\<lparr>mode := MODE_HIGH\<rparr>) = Some s' \<and>
      trace s' = overheatEvents \<and> clock s' = 3200 \<and> mode s' = MODE_LOW \<and> lowOutput s')"
proof -
  let ?s = "(power_on 2000 3)\<lparr>mode := MODE_HIGH\<rparr>"
  have h1: "(341::int) > OVERTEMP" by simp
  have h2: "mode ?s \<noteq> MODE_OFF" by simp
  have f: "trace ?s = []" "clock ?s = 2000" by (simp_all add: power_on_def)
  from overtemperature_response [OF h1 h2] f
  show ?thesis by simp
qed

section \<open>The overtemperature response overwrites the last-on memory\<close>

text \<open>
  Claim C10, in \<^verbatim>\<open>hexbright_jrt.ino\<close>. With a reading above 340 and the mode not Off,
  \<^verbatim>\<open>checkTemperature\<close> returns with \<open>lastOnMode\<close> Low, whatever it was before. A power-off
  from that state stores Low in the EEPROM, and so does a power-off after the light
  has been switched off by \<^verbatim>\<open>setLightOff\<close>.
\<close>

theorem overtemperature_clobbers_lastOnMode:
  assumes "temperature > OVERTEMP" and "mode s \<noteq> MODE_OFF"
  shows "\<exists>s'. checkTemperature temperature s = Some s' \<and> lastOnMode s' = MODE_LOW \<and>
           eeprom (powerOff s') = MODE_LOW \<and>
           (\<exists>s''. setLightOff s' = Some s'' \<and> eeprom (powerOff s'') = MODE_LOW)"
proof -
  obtain s' where s': "checkTemperature temperature s = Some s'" "lastOnMode s' = MODE_LOW"
    using checkTemperature_overheat [OF assms] by blast
  obtain s'' where s'': "setLightOff s' = Some s''" "lastOnMode s'' = lastOnMode s'"
    using setLight_result [where lm = MODE_OFF and s = s'] by (auto simp add: setLightOff_def)
  show ?thesis
    using s' s'' by (simp add: powerOff_eeprom)
qed

theorem overtemperature_clobbers_lastOnMode_witness:
  "map_option lastOnMode
     (checkTemperature 341 ((power_on 2000 3)\<lparr>mode := MODE_HIGH, lastOnMode := MODE_HIGH\<rparr>))
     = Some MODE_LOW \<and>
   map_option (\<lambda>s'. eeprom (powerOff s'))
     (checkTemperature 341 ((power_on 2000 3)\<lparr>mode := MODE_HIGH, lastOnMode := MODE_HIGH\<rparr>))
     = Some MODE_LOW"
proof -
  let ?s = "(power_on 2000 3)\<lparr>mode := MODE_HIGH, lastOnMode := MODE_HIGH\<rparr>"
  have h1: "(341::int) > OVERTEMP" by simp
  have h2: "mode ?s \<noteq> MODE_OFF" by simp
  from overtemperature_clobbers_lastOnMode [OF h1 h2]
  show ?thesis by auto
qed

end
